theory Spec2Isabelle
  imports Complex_Main "HOL-Library.Sublist"
begin

section \<open>Python values used by the collectors\<close>

text \<open>
  A key of a payload dictionary (or an attribute of an SDK model object) is either not
  there, there with the value \<^verbatim>\<open>None\<close>, or there with a value.
\<close>

datatype 'a field = Absent | Null | Val 'a

text \<open>The exceptions of Python that leave a function of the model.\<close>

datatype exn = KeyError | TypeError | ValueError | OverflowError

text \<open>\<^verbatim>\<open>getattr(item, 'id', None)\<close>: a missing attribute reads as \<^verbatim>\<open>None\<close>.\<close>

fun getattr :: "'a field \<Rightarrow> 'a option" where
  "getattr Absent = None"
| "getattr Null = None"
| "getattr (Val v) = Some v"

text \<open>\<^verbatim>\<open>news_item.get(k, []) or []\<close>: a missing key, \<^verbatim>\<open>None\<close> and the empty list all read as \<^verbatim>\<open>[]\<close>.\<close>

fun get_or_empty :: "'a list field \<Rightarrow> 'a list" where
  "get_or_empty Absent = []"
| "get_or_empty Null = []"
| "get_or_empty (Val xs) = xs"

text \<open>
  \<^verbatim>\<open>news_item.get(k, '')\<close> rendered inside an f-string: a missing key gives the empty
  string, the value \<^verbatim>\<open>None\<close> is rendered as the text \<^verbatim>\<open>None\<close>.
\<close>

fun fmt :: "string field \<Rightarrow> string" where
  "fmt Absent = []"
| "fmt Null = ''None''"
| "fmt (Val s) = s"

text \<open>
  Strings are the UTF-8 bytes of Python's strings: equality, the substring test and the
  replacement of an ASCII text agree on both. \<^verbatim>\<open>str.lower()\<close> follows the Unicode tables
  and is not defined in the repository. On ASCII text it maps the letters \<^verbatim>\<open>A\<close> to
  \<^verbatim>\<open>Z\<close> to \<^verbatim>\<open>a\<close> to \<^verbatim>\<open>z\<close> and keeps every other character: that is \<open>lower\<close>. The
  tagger takes \<^verbatim>\<open>str.lower\<close> as its parameter \<open>str_lower\<close>.
\<close>

definition ascii :: "string \<Rightarrow> bool" where
  "ascii s = list_all (\<lambda>c. \<not> digit7 c) s"

definition lower_char :: "char \<Rightarrow> char" where
  "lower_char c =
     (case map_of (zip ''ABCDEFGHIJKLMNOPQRSTUVWXYZ'' ''abcdefghijklmnopqrstuvwxyz'') c of
        Some l \<Rightarrow> l
      | None \<Rightarrow> c)"

definition lower :: "string \<Rightarrow> string" where
  "lower s = map lower_char s"

text \<open>
  \<^verbatim>\<open>s.replace(old, new)\<close> for a non-empty \<^verbatim>\<open>old\<close>: every occurrence, found from the left
  and not overlapping, is replaced.
\<close>

function replace :: "string \<Rightarrow> string \<Rightarrow> string \<Rightarrow> string" where
  "replace old new [] = []"
| "replace old new (c # cs) =
     (if old \<noteq> [] \<and> prefix old (c # cs)
      then new @ replace old new (drop (length old) (c # cs))
      else c # replace old new cs)"
  by pat_completeness auto
termination
  by (relation "measure (\<lambda>(old, new, s). length s)") (auto simp: neq_Nil_conv)

text \<open>The test \<^verbatim>\<open>sub in text\<close> on strings is \<^const>\<open>sublist\<close>: a contiguous occurrence.\<close>

section \<open>Payloads and stored records (comprehensive_canadian_banks_news.py)\<close>

text \<open>
  One element of \<^verbatim>\<open>response.data\<close>: a headline object of the vendor SDK, with the
  attributes the collector reads. The SDK's model objects all define \<^verbatim>\<open>to_dict\<close>. The
  repository reads its dictionaries under the keys of the request's attribute list
  (\<^verbatim>\<open>storyTime\<close>, \<^verbatim>\<open>primarySymbols\<close>, \<^verbatim>\<open>storyBody\<close> in \<^verbatim>\<open>_check_bank_mentions\<close>,
  \<^verbatim>\<open>_process_results\<close>, \<^verbatim>\<open>main\<close> and \<^verbatim>\<open>save_news_to_file\<close>), so \<^verbatim>\<open>to_dict\<close> is taken to
  give the dictionary of these keys.
\<close>

record headline =
  id' :: "string field"
  headlines :: "string field"
  storyBody :: "string field"
  symbols :: "string list field"
  primarySymbols :: "string list field"
  storyTime :: "int field"

text \<open>
  The dictionary stored in \<^verbatim>\<open>all_news\<close>: the payload's keys and the three keys that
  \<^verbatim>\<open>_search_news\<close> adds.
\<close>

record news_item = headline +
  search_method :: string
  retrieved_at :: string
  canadian_banks_mentioned :: "string list"

definition to_dict :: "headline \<Rightarrow> news_item" where
  "to_dict item =
     headline.extend item
       \<lparr>search_method = [], retrieved_at = [], canadian_banks_mentioned = []\<rparr>"

section \<open>The tracked banks and the tagger\<close>

text \<open>\<^verbatim>\<open>self.canadian_banks\<close>, in the insertion order of the dictionary literal.\<close>

definition canadian_banks :: "(string \<times> string) list" where
  "canadian_banks =
     [(''RY-CA'', ''Royal Bank of Canada''),
      (''TD-CA'', ''Toronto-Dominion Bank''),
      (''BMO-CA'', ''Bank of Montreal''),
      (''BNS-CA'', ''Bank of Nova Scotia''),
      (''CM-CA'', ''CIBC''),
      (''NA-CA'', ''National Bank of Canada''),
      (''LB-CA'', ''Laurentian Bank'')]"

definition all_symbols :: "'a headline_scheme \<Rightarrow> string set" where
  "all_symbols news =
     set (get_or_empty (symbols news) @ get_or_empty (primarySymbols news))"

definition full_text :: "(string \<Rightarrow> string) \<Rightarrow> 'a headline_scheme \<Rightarrow> string" where
  "full_text str_lower news = str_lower (fmt (headlines news) @ '' '' @ fmt (storyBody news))"

text \<open>
  The loop of \<^verbatim>\<open>_check_bank_mentions\<close> over the entries of the bank table, with the list
  \<^verbatim>\<open>mentioned\<close> as accumulator. Its argument is a dictionary: any record with the keys of
  a payload.
\<close>

fun check_loop ::
  "(string \<Rightarrow> string) \<Rightarrow> (string \<times> string) list \<Rightarrow> 'a headline_scheme \<Rightarrow> string list
     \<Rightarrow> string list" where
  "check_loop str_lower [] news mentioned = mentioned"
| "check_loop str_lower ((ticker, name) # banks) news mentioned =
     (if ticker \<in> all_symbols news \<or> replace ''-CA'' [] ticker \<in> all_symbols news
      then check_loop str_lower banks news (mentioned @ [ticker])
      else if sublist (str_lower name) (full_text str_lower news)
      then check_loop str_lower banks news (mentioned @ [ticker])
      else check_loop str_lower banks news mentioned)"

definition check_bank_mentions :: "(string \<Rightarrow> string) \<Rightarrow> 'a headline_scheme \<Rightarrow> string list" where
  "check_bank_mentions str_lower news = check_loop str_lower canadian_banks news []"

section \<open>The collector and the world around it\<close>

text \<open>
  The attributes of \<^verbatim>\<open>ComprehensiveNewsCollector\<close> that change during a run. The bank
  table and \<^verbatim>\<open>request_delay\<close> are set once by \<^verbatim>\<open>__init__\<close> and never assigned again:
  they are the constants \<^const>\<open>canadian_banks\<close> and \<open>request_delay\<close>.
\<close>

record collector =
  all_news :: "news_item list"
  unique_stories :: "string set"
  request_count :: nat

definition init :: collector where
  "init = \<lparr>all_news = [], unique_stories = {}, request_count = 0\<rparr>"

definition request_delay :: real where
  "request_delay = 2"

text \<open>The filters and the search window of one call of the headlines service.\<close>

record request =
  tickers :: "string list"
  sectors :: "string list"
  regions :: "string list"
  start_date :: int
  end_date :: int

text \<open>
  What a call of the service does: it raises (the text is \<^verbatim>\<open>str(e)\<close>), or it answers
  with the list \<^verbatim>\<open>response.data\<close>; an answer without data is the empty list.
\<close>

datatype api_result = ApiError string | ApiResponse "headline list"

text \<open>
  The service answers the \<open>k\<close>-th call of a run with \<open>api env k request\<close>, and the clock
  reads \<open>now env k\<close> when the \<open>k\<close>-th record is stored.
\<close>

record env =
  api :: "nat \<Rightarrow> request \<Rightarrow> api_result"
  now :: "nat \<Rightarrow> string"

text \<open>
  The records the logger receives at warning and error level (the progress lines at
  info level are left out), the calls made to the service and the delays slept.
\<close>

datatype level = WARNING | ERROR

datatype message =
    BadRequest string
  | SearchError string string
  | NoNewsFound

record world =
  log :: "(level \<times> message) list"
  calls :: "request list"
  sleeps :: "real list"

fun rate_limit :: "collector \<times> world \<Rightarrow> collector \<times> world" where
  "rate_limit (self, w) =
     (let w1 = w\<lparr>sleeps := sleeps w @ [request_delay]\<rparr>;
          self1 = self\<lparr>request_count := request_count self + 1\<rparr>
      in if request_count self1 mod 10 = 0
         then (self1, w1\<lparr>sleeps := sleeps w1 @ [10]\<rparr>)
         else (self1, w1))"

text \<open>
  The dictionary \<^verbatim>\<open>_search_news\<close> builds for a new story: the payload's dictionary, the
  label of the search, the reading of the clock, and the banks found by the tagger in the
  dictionary built so far. The stored tags are computed with \<open>lower\<close>, which is
  \<^verbatim>\<open>str.lower\<close> for ASCII headlines and bodies.
\<close>

definition new_record :: "string \<Rightarrow> string \<Rightarrow> headline \<Rightarrow> news_item" where
  "new_record description t item =
     (let news1 = (to_dict item)\<lparr>search_method := description, retrieved_at := t\<rparr>
      in news1\<lparr>canadian_banks_mentioned := check_bank_mentions lower news1\<rparr>)"

text \<open>
  The loop of \<^verbatim>\<open>_search_news\<close> over \<^verbatim>\<open>response.data\<close>, with \<^verbatim>\<open>new_count\<close> as
  accumulator.
\<close>

fun search_loop ::
  "(nat \<Rightarrow> string) \<Rightarrow> string \<Rightarrow> headline list \<Rightarrow> collector \<Rightarrow> nat \<Rightarrow> collector \<times> nat" where
  "search_loop clock description [] self new_count = (self, new_count)"
| "search_loop clock description (item # data) self new_count =
     (case getattr (id' item) of
        None \<Rightarrow> search_loop clock description data self new_count
      | Some story_id \<Rightarrow>
          if story_id \<noteq> [] \<and> story_id \<notin> unique_stories self
          then
            (let self1 = self\<lparr>unique_stories := insert story_id (unique_stories self)\<rparr>;
                 news = new_record description (clock (length (all_news self1))) item;
                 self2 = self1\<lparr>all_news := all_news self1 @ [news]\<rparr>
             in search_loop clock description data self2 (new_count + 1))
          else search_loop clock description data self new_count)"

text \<open>
  \<^verbatim>\<open>_search_news\<close>: the call of the service inside \<^verbatim>\<open>try\<close>, the loop over the answer,
  and the handler of \<^verbatim>\<open>except Exception\<close>, which logs and returns 0. The call is the
  only statement of the \<^verbatim>\<open>try\<close> block that raises: the loop reads attributes and
  dictionaries of the SDK's model objects. The call is the one numbered by the calls made
  so far.
\<close>

fun search_news ::
  "env \<Rightarrow> request \<Rightarrow> string \<Rightarrow> collector \<times> world \<Rightarrow> nat \<times> collector \<times> world" where
  "search_news e req description (self, w) =
     (let w1 = w\<lparr>calls := calls w @ [req]\<rparr> in
      (case api e (length (calls w)) req of
         ApiError error_msg \<Rightarrow>
           (0, self,
            w1\<lparr>log := log w1 @
               [if sublist ''400'' error_msg
                then (WARNING, BadRequest description)
                else (ERROR, SearchError description (take 100 error_msg))]\<rparr>)
       | ApiResponse data \<Rightarrow>
           (case search_loop (now e) description data self 0 of
              (self', new_count) \<Rightarrow> (new_count, self', w1))))"

text \<open>
  The table \<^verbatim>\<open>_process_results\<close> returns: one row per stored record with the two
  analysis columns. The sort is pandas' \<^verbatim>\<open>DataFrame.sort_values('storyTime',
  ascending=False)\<close>, a parameter of the model; \<^verbatim>\<open>pd.to_datetime(errors='coerce')\<close>
  turns a missing value into the missing timestamp.
\<close>

record row = news_item +
  is_canadian_banking :: bool
  num_banks_mentioned :: nat

definition to_row :: "news_item \<Rightarrow> row" where
  "to_row news =
     news_item.extend news
       \<lparr>is_canadian_banking = (length (canadian_banks_mentioned news) > 0),
        num_banks_mentioned = length (canadian_banks_mentioned news)\<rparr>"

fun to_datetime :: "int field \<Rightarrow> int field" where
  "to_datetime (Val t) = Val t"
| "to_datetime Null = Null"
| "to_datetime Absent = Null"

fun process_results ::
  "(row list \<Rightarrow> row list) \<Rightarrow> collector \<times> world \<Rightarrow> row list \<times> world" where
  "process_results sort_values (self, w) =
     (if all_news self = [] then ([], w\<lparr>log := log w @ [(WARNING, NoNewsFound)]\<rparr>)
      else
        (let df = map to_row (all_news self) in
         if list_ex (\<lambda>r. storyTime r \<noteq> Absent) df
         then (sort_values (map (\<lambda>r. r\<lparr>storyTime := to_datetime (storyTime r)\<rparr>) df), w)
         else (df, w)))"

text \<open>Strategy 1 of \<^verbatim>\<open>collect_news\<close>: the loop over the entries of the bank table.\<close>

fun ticker_loop ::
  "env \<Rightarrow> int \<Rightarrow> int \<Rightarrow> (string \<times> string) list \<Rightarrow> collector \<times> world \<Rightarrow> collector \<times> world" where
  "ticker_loop e start until [] cw = cw"
| "ticker_loop e start until ((ticker, name) # banks) cw =
     (case search_news e
             \<lparr>tickers = [ticker], sectors = [], regions = [],
              start_date = start, end_date = until\<rparr>
             (ticker @ '' ('' @ name @ '')'') (rate_limit cw) of
        (count, cw') \<Rightarrow> ticker_loop e start until banks cw')"

text \<open>
  Times are whole seconds counted from \<^verbatim>\<open>datetime.min\<close>, the start of year 1; the last
  second of \<^verbatim>\<open>datetime.max\<close> is 315537897599. \<^verbatim>\<open>end_date - timedelta(days=days_back)\<close>
  raises \<^verbatim>\<open>OverflowError\<close> when \<^verbatim>\<open>days_back\<close> is beyond 999999999 days either way, or
  when the result is not a date of the years 1 to 9999.
\<close>

definition window_start :: "int \<Rightarrow> int \<Rightarrow> exn + int" where
  "window_start until days_back =
     (if \<bar>days_back\<bar> > 999999999 then Inl OverflowError
      else
        (let start = until - days_back * 86400
         in if 0 \<le> start \<and> start \<le> 315537897599 then Inr start else Inl OverflowError))"

text \<open>
  \<^verbatim>\<open>collect_news\<close>; \<open>until\<close> is the reading of the clock at the start of the run. The
  window is computed before the first search and outside any \<^verbatim>\<open>try\<close>.
\<close>

definition collect_news ::
  "env \<Rightarrow> (row list \<Rightarrow> row list) \<Rightarrow> int \<Rightarrow> int \<Rightarrow> collector \<times> world
     \<Rightarrow> exn + (row list \<times> collector \<times> world)" where
  "collect_news e sort_values until days_back cw =
     (case window_start until days_back of
        Inl err \<Rightarrow> Inl err
      | Inr start \<Rightarrow>
          Inr (let cw1 = ticker_loop e start until canadian_banks cw;
                   (count2, cw2) = search_news e
                      \<lparr>tickers = [], sectors = [''Financial''], regions = [],
                       start_date = start, end_date = until\<rparr>
                      ''Financial sector'' (rate_limit cw1);
                   (count3, cw3) = search_news e
                      \<lparr>tickers = [], sectors = [''Financial''], regions = [''North America''],
                       start_date = start, end_date = until\<rparr>
                      ''North America Financial'' (rate_limit cw2);
                   (df, w4) = process_results sort_values cw3
               in (df, fst cw3, w4)))"

section \<open>Retrying one ticker (street_account_news_canadian_banks.py)\<close>

text \<open>
  The numbers of the configuration file: YAML gives Python ints and floats, the floats
  with the two infinities and the value that is not a number. \<open>PyFloat r\<close> is the float of
  value \<open>r\<close>.
\<close>

datatype number = PyInt int | PyFloat real | PyInf | PyNegInf | PyNaN

fun val :: "number \<Rightarrow> real option" where
  "val (PyInt i) = Some (of_int i)"
| "val (PyFloat r) = Some r"
| "val PyInf = None"
| "val PyNegInf = None"
| "val PyNaN = None"

text \<open>
  \<^verbatim>\<open>a < b\<close> on numbers: ints and floats are compared by value, and every comparison with
  the value that is not a number is false.
\<close>

fun py_lt :: "number \<Rightarrow> number \<Rightarrow> bool" where
  "py_lt PyNaN b = False"
| "py_lt a PyNaN = False"
| "py_lt a PyNegInf = False"
| "py_lt PyNegInf b = True"
| "py_lt PyInf b = False"
| "py_lt a PyInf = True"
| "py_lt (PyInt i) (PyInt j) = (i < j)"
| "py_lt (PyInt i) (PyFloat r) = (of_int i < r)"
| "py_lt (PyFloat r) (PyInt j) = (r < of_int j)"
| "py_lt (PyFloat r) (PyFloat q) = (r < q)"

text \<open>
  \<^verbatim>\<open>base_delay * (2 ** attempt)\<close>. The power is an int. An int base gives the exact int. A
  float base needs the power as a float, which raises \<^verbatim>\<open>OverflowError\<close> from \<open>2 ^ 1024\<close>
  on; below, the product of a float with a power of two is exact, or an infinity when it
  leaves the range of the floats. \<^verbatim>\<open>None\<close> as base raises \<^verbatim>\<open>TypeError\<close>.
\<close>

fun times_power :: "number \<Rightarrow> nat \<Rightarrow> exn + number" where
  "times_power (PyInt i) attempt = Inr (PyInt (i * 2 ^ attempt))"
| "times_power (PyFloat r) attempt =
     (if 1024 \<le> attempt then Inl OverflowError
      else if 2 ^ 1024 \<le> r * 2 ^ attempt then Inr PyInf
      else if r * 2 ^ attempt \<le> - (2 ^ 1024) then Inr PyNegInf
      else Inr (PyFloat (r * 2 ^ attempt)))"
| "times_power x attempt = (if 1024 \<le> attempt then Inl OverflowError else Inr x)"

text \<open>
  \<^verbatim>\<open>f"{actual_delay:.1f}"\<close> in the console warning: an int is turned into a float first,
  which raises \<^verbatim>\<open>OverflowError\<close> when it rounds to \<open>2 ^ 1024\<close> or beyond.
\<close>

fun format_1f :: "number \<Rightarrow> exn + number" where
  "format_1f (PyInt i) =
     (if 2 ^ 1024 - 2 ^ 970 \<le> \<bar>i\<bar> then Inl OverflowError else Inr (PyInt i))"
| "format_1f x = Inr x"

text \<open>
  The settings of \<^verbatim>\<open>config["api_settings"]\<close> that \<^verbatim>\<open>get_news_for_ticker\<close> reads for its
  retries. A key of the file may be missing or hold the null value.
\<close>

record api_settings =
  max_retries :: "int field"
  retry_delay :: "number field"
  use_exponential_backoff :: "bool field"
  max_backoff_delay :: "number field"

text \<open>The truth value of \<^verbatim>\<open>config["api_settings"].get("use_exponential_backoff", False)\<close>.\<close>

fun backoff_enabled :: "bool field \<Rightarrow> bool" where
  "backoff_enabled (Val b) = b"
| "backoff_enabled Null = False"
| "backoff_enabled Absent = False"

text \<open>
  The delay the handler computes after the failed attempt \<open>attempt\<close>, as far as the console
  warning that shows it; or the exception raised on the way.
\<close>

definition actual_delay :: "api_settings \<Rightarrow> nat \<Rightarrow> exn + number" where
  "actual_delay cfg attempt =
     (if backoff_enabled (use_exponential_backoff cfg) then
        (case retry_delay cfg of
           Absent \<Rightarrow> Inl KeyError
         | Null \<Rightarrow> Inl TypeError
         | Val base_delay \<Rightarrow>
             (case times_power base_delay attempt of
                Inl err \<Rightarrow> Inl err
              | Inr exponential_delay \<Rightarrow>
                  (case max_backoff_delay cfg of
                     Null \<Rightarrow> Inl TypeError
                   | Absent \<Rightarrow>
                       format_1f (if py_lt (PyFloat 60) exponential_delay then PyFloat 60
                                  else exponential_delay)
                   | Val max_delay \<Rightarrow>
                       format_1f (if py_lt max_delay exponential_delay then max_delay
                                  else exponential_delay))))
      else
        (case retry_delay cfg of
           Absent \<Rightarrow> Inl KeyError
         | Null \<Rightarrow> Inl TypeError
         | Val d \<Rightarrow> format_1f d))"

text \<open>
  What one run of \<^verbatim>\<open>get_news_for_ticker\<close> does, in order: the attempts, each with its
  number from 0, the delays slept, and the record written to the error log when the
  attempts are used up.
\<close>

datatype event =
    Called nat
  | Slept number
  | Failed nat

text \<open>
  The loop over \<^verbatim>\<open>range(max_retries)\<close>, from \<open>attempt\<close> on, for \<open>max_retries = n\<close>. The
  \<^verbatim>\<open>try\<close> block of attempt \<open>k\<close> ends as \<open>api_instance k\<close> says: it raises, or it has the
  data of the answer. \<^verbatim>\<open>time.sleep\<close> is not defined in the repository: \<open>time_sleep d\<close> is
  the exception it raises for the delay \<open>d\<close>, or \<open>None\<close> when it returns. An exception
  raised inside the handler leaves the function.
\<close>

function get_news_loop ::
  "api_settings \<Rightarrow> (number \<Rightarrow> exn option) \<Rightarrow> (nat \<Rightarrow> api_result) \<Rightarrow> int \<Rightarrow> nat
     \<Rightarrow> event list \<times> (exn + headline list)" where
  "get_news_loop cfg time_sleep api_instance n attempt =
     (if int attempt < n then
        (case api_instance attempt of
           ApiResponse data \<Rightarrow> ([Called attempt], Inr data)
         | ApiError e \<Rightarrow>
             if int attempt < n - 1 then
               (case actual_delay cfg attempt of
                  Inl err \<Rightarrow> ([Called attempt], Inl err)
                | Inr d \<Rightarrow>
                    (case time_sleep d of
                       Some err \<Rightarrow> ([Called attempt], Inl err)
                     | None \<Rightarrow>
                         (case get_news_loop cfg time_sleep api_instance n (attempt + 1) of
                            (tr, r) \<Rightarrow> (Called attempt # Slept d # tr, r))))
             else ([Called attempt, Failed (attempt + 1)], Inr []))
      else ([], Inr []))"
  by pat_completeness auto
termination
  by (relation "measure (\<lambda>(cfg, time_sleep, api_instance, n, attempt). nat (n - int attempt))")
     auto

declare get_news_loop.simps [simp del]

text \<open>
  \<^verbatim>\<open>get_news_for_ticker\<close>: \<^verbatim>\<open>range\<close> raises \<^verbatim>\<open>TypeError\<close> for \<^verbatim>\<open>None\<close>, and reading a
  missing key raises \<^verbatim>\<open>KeyError\<close>, before the first attempt.
\<close>

definition get_news_for_ticker ::
  "api_settings \<Rightarrow> (number \<Rightarrow> exn option) \<Rightarrow> (nat \<Rightarrow> api_result)
     \<Rightarrow> event list \<times> (exn + headline list)" where
  "get_news_for_ticker cfg time_sleep api_instance =
     (case max_retries cfg of
        Absent \<Rightarrow> ([], Inl KeyError)
      | Null \<Rightarrow> ([], Inl TypeError)
      | Val n \<Rightarrow> get_news_loop cfg time_sleep api_instance n 0)"

text \<open>The delays slept and the attempts made, read off a run.\<close>

fun delays :: "event list \<Rightarrow> number list" where
  "delays [] = []"
| "delays (Slept d # tr) = d # delays tr"
| "delays (ev # tr) = delays tr"

fun attempts :: "event list \<Rightarrow> nat list" where
  "attempts [] = []"
| "attempts (Called k # tr) = k # attempts tr"
| "attempts (ev # tr) = attempts tr"

text \<open>
  The conversions of \<^verbatim>\<open>time.sleep\<close> in CPython: a delay that does not fit 64 bits of
  nanoseconds raises \<^verbatim>\<open>OverflowError\<close>, a negative delay or the value that is not a
  number raises \<^verbatim>\<open>ValueError\<close>, and any other delay is slept. (The operating system may
  still refuse a delay close to the bound.)
\<close>

fun py_sleep :: "number \<Rightarrow> exn option" where
  "py_sleep PyNaN = Some ValueError"
| "py_sleep PyInf = Some OverflowError"
| "py_sleep PyNegInf = Some OverflowError"
| "py_sleep (PyInt i) =
     (if 2 ^ 63 - 1 < i * 1000000000 \<or> i * 1000000000 < - (2 ^ 63) then Some OverflowError
      else if i < 0 then Some ValueError else None)"
| "py_sleep (PyFloat r) =
     (if 2 ^ 63 - 1 < r * 1000000000 \<or> r * 1000000000 < - (2 ^ 63) then Some OverflowError
      else if r < 0 then Some ValueError else None)"

text \<open>
  Settings with three attempts and a capped backoff, settings with a negative delay, and
  a service that always fails.
\<close>

definition backoff_settings :: api_settings where
  "backoff_settings =
     \<lparr>max_retries = Val 3, retry_delay = Val (PyFloat 2), use_exponential_backoff = Val True,
      max_backoff_delay = Val (PyInt 3)\<rparr>"

definition negative_delay_settings :: api_settings where
  "negative_delay_settings =
     \<lparr>max_retries = Val 3, retry_delay = Val (PyFloat (- 1)),
      use_exponential_backoff = Val False, max_backoff_delay = Val (PyFloat 60)\<rparr>"

definition always_failing :: "nat \<Rightarrow> api_result" where
  "always_failing k = ApiError ''503 Service Unavailable''"

section \<open>Sequences of calls and the stories used as examples\<close>

text \<open>A sequence of collection calls, each with its request and its label.\<close>

fun run_calls :: "env \<Rightarrow> (request \<times> string) list \<Rightarrow> collector \<times> world \<Rightarrow> collector \<times> world" where
  "run_calls e [] cw = cw"
| "run_calls e ((req, description) # cs) cw = run_calls e cs (snd (search_news e req description cw))"

text \<open>
  The searches of \<^verbatim>\<open>collect_news\<close> in the order of the code, each with its request and
  label, and a run of such searches, each after \<^verbatim>\<open>_rate_limit\<close>.
\<close>

definition strategies :: "int \<Rightarrow> int \<Rightarrow> (request \<times> string) list" where
  "strategies start until =
     map (\<lambda>(ticker, name).
            (\<lparr>tickers = [ticker], sectors = [], regions = [],
              start_date = start, end_date = until\<rparr>,
             ticker @ '' ('' @ name @ '')''))
         canadian_banks
     @ [(\<lparr>tickers = [], sectors = [''Financial''], regions = [],
          start_date = start, end_date = until\<rparr>,
         ''Financial sector''),
        (\<lparr>tickers = [], sectors = [''Financial''], regions = [''North America''],
          start_date = start, end_date = until\<rparr>,
         ''North America Financial'')]"

fun run_strategies ::
  "env \<Rightarrow> (request \<times> string) list \<Rightarrow> collector \<times> world \<Rightarrow> collector \<times> world" where
  "run_strategies e [] cw = cw"
| "run_strategies e ((req, description) # ss) cw =
     run_strategies e ss (snd (search_news e req description (rate_limit cw)))"

text \<open>What the handler of \<^verbatim>\<open>_search_news\<close> logs for a label and the text of an exception.\<close>

definition failure_record :: "string \<Rightarrow> string \<Rightarrow> level \<times> message" where
  "failure_record description error_msg =
     (if sublist ''400'' error_msg
      then (WARNING, BadRequest description)
      else (ERROR, SearchError description (take 100 error_msg)))"

text \<open>The identifiers of the stored records, and what ties them to the set of seen identifiers.\<close>

definition stored_ids :: "collector \<Rightarrow> string field list" where
  "stored_ids self = map id' (all_news self)"

definition consistent :: "collector \<Rightarrow> bool" where
  "consistent self \<longleftrightarrow>
     distinct (stored_ids self) \<and> set (stored_ids self) = Val ` unique_stories self"

text \<open>
  The tagging rule in the words of the specification: the ticker or a registered alias is
  in the symbol lists, or else the lower-cased display name occurs in the lower-cased
  concatenation of headline and body.
\<close>

definition spec_matched :: "string \<Rightarrow> string \<Rightarrow> string list \<Rightarrow> 'a headline_scheme \<Rightarrow> bool" where
  "spec_matched ticker name aliases story =
     (if list_ex (\<lambda>s. s \<in> all_symbols story) (ticker # aliases) then True
      else sublist (lower name) (lower (fmt (headlines story) @ fmt (storyBody story))))"

text \<open>
  Dictionaries given to the tagger: the story of the scenario; one whose only symbol is
  \<^verbatim>\<open>RY\<close>; one whose headline and body only together spell a name; one that names a bank
  in capitals and lists no symbol; and one that lists \<^verbatim>\<open>TD\<close> as primary symbol only.
\<close>

definition scenario_story :: news_item where
  "scenario_story =
     \<lparr>id' = Val ''s1'', headlines = Val ''RBC profits rise'', storyBody = Absent,
      symbols = Val [''RY-CA''], primarySymbols = Absent, storyTime = Absent,
      search_method = ''RY-CA (Royal Bank of Canada)'', retrieved_at = ''2026-11-04T09:00:00'',
      canadian_banks_mentioned = []\<rparr>"

definition stripped_story :: news_item where
  "stripped_story =
     \<lparr>id' = Val ''s3'', headlines = Val ''Markets update'', storyBody = Absent,
      symbols = Val [''RY''], primarySymbols = Absent, storyTime = Absent,
      search_method = ''Financial sector'', retrieved_at = ''2026-11-04T09:00:01'',
      canadian_banks_mentioned = []\<rparr>"

definition split_story :: news_item where
  "split_story =
     \<lparr>id' = Val ''s4'', headlines = Val ''CI'', storyBody = Val ''BC'',
      symbols = Absent, primarySymbols = Absent, storyTime = Absent,
      search_method = ''Financial sector'', retrieved_at = ''2026-11-04T09:00:02'',
      canadian_banks_mentioned = []\<rparr>"

definition capitals_story :: news_item where
  "capitals_story =
     \<lparr>id' = Val ''s5'', headlines = Val ''ROYAL BANK of Canada lifts dividend'',
      storyBody = Val ''Shares of the LAURENTIAN bank fell.'',
      symbols = Val [], primarySymbols = Null, storyTime = Absent,
      search_method = ''Financial sector'', retrieved_at = ''2026-11-04T09:00:03'',
      canadian_banks_mentioned = []\<rparr>"

definition primary_story :: news_item where
  "primary_story =
     \<lparr>id' = Val ''s6'', headlines = Val ''Earnings calendar'', storyBody = Null,
      symbols = Absent, primarySymbols = Val [''TD''], storyTime = Absent,
      search_method = ''Financial sector'', retrieved_at = ''2026-11-04T09:00:04'',
      canadian_banks_mentioned = []\<rparr>"

definition payload_s2 :: headline where
  "payload_s2 =
     \<lparr>id' = Val ''s2'', headlines = Val ''Bank of Montreal raises dividend'', storyBody = Null,
      symbols = Val [''BMO-CA''], primarySymbols = Val [''BMO-CA''], storyTime = Val 1700000000\<rparr>"

definition payload_no_id :: headline where
  "payload_no_id =
     \<lparr>id' = Absent, headlines = Val ''Rates on hold'', storyBody = Absent,
      symbols = Absent, primarySymbols = Absent, storyTime = Absent\<rparr>"

definition quiet_world :: world where
  "quiet_world = \<lparr>log = [], calls = [], sleeps = []\<rparr>"

definition any_request :: request where
  "any_request =
     \<lparr>tickers = [], sectors = [''Financial''], regions = [],
      start_date = 0, end_date = 86400\<rparr>"

text \<open>A service that answers every call with the same data, and a clock that counts.\<close>

definition answering :: "headline list \<Rightarrow> env" where
  "answering data = \<lparr>api = (\<lambda>k req. ApiResponse data), now = (\<lambda>k. replicate k CHR ''t'')\<rparr>"

text \<open>
  A service that rejects the search of the financial sector alone with a 400 response and
  answers every other search.
\<close>

definition rejecting :: env where
  "rejecting =
     \<lparr>api = (\<lambda>k req. if sectors req = [''Financial''] \<and> regions req = []
                      then ApiError ''(400) Reason: Bad Request''
                      else ApiResponse [payload_s2]),
      now = (\<lambda>k. replicate k CHR ''t'')\<rparr>"

text \<open>
  Two strategies that both find the story \<^verbatim>\<open>s2\<close>, one after the other; a call that
  receives one payload without identifier; and a call that receives such a payload
  followed by \<^verbatim>\<open>s2\<close>.
\<close>

definition first_discovery :: "nat \<times> collector \<times> world" where
  "first_discovery =
     search_news (answering [payload_s2]) any_request ''Financial sector'' (init, quiet_world)"

definition second_discovery :: "nat \<times> collector \<times> world" where
  "second_discovery =
     search_news (answering [payload_s2]) any_request ''North America Financial''
       (snd first_discovery)"

definition no_id_discovery :: "nat \<times> collector \<times> world" where
  "no_id_discovery =
     search_news (answering [payload_no_id]) any_request ''Financial sector''
       (init, quiet_world)"

definition mixed_discovery :: "nat \<times> collector \<times> world" where
  "mixed_discovery =
     search_news (answering [payload_no_id, payload_s2]) any_request ''Financial sector''
       (init, quiet_world)"

section \<open>Properties of the tagger\<close>

lemma check_loop_filter:
  "check_loop str_lower banks news mentioned =
     mentioned @ map fst (filter (\<lambda>(ticker, name).
        ticker \<in> all_symbols news \<or> replace ''-CA'' [] ticker \<in> all_symbols news \<or>
        sublist (str_lower name) (full_text str_lower news)) banks)"
  by (induction str_lower banks news mentioned rule: check_loop.induct) auto

lemma distinct_bank_tickers: "distinct (map fst canadian_banks)"
  by (simp add: canadian_banks_def)

lemma mem_check_bank_mentions:
  assumes "(ticker, name) \<in> set canadian_banks"
  shows "ticker \<in> set (check_bank_mentions str_lower news) \<longleftrightarrow>
           ticker \<in> all_symbols news \<or> replace ''-CA'' [] ticker \<in> all_symbols news \<or>
           sublist (str_lower name) (full_text str_lower news)"
proof -
  have uniq: "name' = name" if "(ticker, name') \<in> set canadian_banks" for name'
    using distinct_bank_tickers that assms by (rule eq_key_imp_eq_value)
  have "ticker \<in> set (check_bank_mentions str_lower news) \<longleftrightarrow>
     (\<exists>name'. (ticker, name') \<in> set canadian_banks \<and>
        (ticker \<in> all_symbols news \<or> replace ''-CA'' [] ticker \<in> all_symbols news \<or>
         sublist (str_lower name') (full_text str_lower news)))"
    unfolding check_bank_mentions_def check_loop_filter
    by (force simp: image_iff)
  then show ?thesis using assms uniq by blast
qed

lemma distinct_check_bank_mentions: "distinct (check_bank_mentions str_lower news)"
  unfolding check_bank_mentions_def check_loop_filter
  using distinct_bank_tickers by (simp add: distinct_map_filter)

lemma check_bank_mentions_subset:
  "set (check_bank_mentions str_lower news) \<subseteq> fst ` set canadian_banks"
  unfolding check_bank_mentions_def check_loop_filter by auto

lemma ticker_suffix:
  "(ticker, name) \<in> set canadian_banks \<Longrightarrow> ticker = replace ''-CA'' [] ticker @ ''-CA''"
  by (auto simp: canadian_banks_def)

lemma stripped_tickers:
  assumes "(ticker, name) \<in> set canadian_banks" and "ticker = base @ ''-CA''"
  shows "replace ''-CA'' [] ticker = base"
proof -
  have "base @ ''-CA'' = replace ''-CA'' [] ticker @ ''-CA''"
    using ticker_suffix [OF assms(1)] assms(2) by simp
  then show ?thesis by simp
qed

lemma ascii_bank_names: "\<forall>(ticker, name) \<in> set canadian_banks. ascii name"
  by (simp add: canadian_banks_def ascii_def)

text \<open>A function that lowers ASCII text as lower does tags a story with ASCII text as lower does.\<close>

lemma check_bank_mentions_ascii:
  assumes lw: "\<forall>s. ascii s \<longrightarrow> str_lower s = lower s"
    and body: "ascii (fmt (headlines news) @ '' '' @ fmt (storyBody news))"
  shows "check_bank_mentions str_lower news = check_bank_mentions lower news"
proof -
  have t: "full_text str_lower news = full_text lower news"
    using lw body by (simp add: full_text_def)
  have n: "str_lower name = lower name" if "(ticker, name) \<in> set canadian_banks" for ticker name
    using ascii_bank_names that lw by blast
  have "filter (\<lambda>(ticker, name).
        ticker \<in> all_symbols news \<or> replace ''-CA'' [] ticker \<in> all_symbols news \<or>
        sublist (str_lower name) (full_text lower news)) canadian_banks =
      filter (\<lambda>(ticker, name).
        ticker \<in> all_symbols news \<or> replace ''-CA'' [] ticker \<in> all_symbols news \<or>
        sublist (lower name) (full_text lower news)) canadian_banks"
    by (rule filter_cong) (auto simp: n)
  then show ?thesis
    unfolding check_bank_mentions_def check_loop_filter t by simp
qed

lemmas tagger_eval =
  check_bank_mentions_def canadian_banks_def all_symbols_def full_text_def lower_def
  lower_char_def sublist_code

lemma tags_scenario_story: "check_bank_mentions lower scenario_story = [''RY-CA'']"
  by (simp add: scenario_story_def tagger_eval)

lemma tags_stripped_story: "check_bank_mentions lower stripped_story = [''RY-CA'']"
  by (simp add: stripped_story_def tagger_eval)

lemma tags_split_story: "check_bank_mentions lower split_story = []"
  by (simp add: split_story_def tagger_eval)

lemma tags_capitals_story: "check_bank_mentions lower capitals_story = [''RY-CA'', ''LB-CA'']"
  by (simp add: capitals_story_def tagger_eval)

lemma tags_primary_story: "check_bank_mentions lower primary_story = [''TD-CA'']"
  by (simp add: primary_story_def tagger_eval)

lemma ascii_scenario: "ascii (fmt (headlines scenario_story) @ '' '' @ fmt (storyBody scenario_story))"
  by (simp add: scenario_story_def ascii_def)

lemma royal_bank_tracked: "(''RY-CA'', ''Royal Bank of Canada'') \<in> set canadian_banks"
  by (simp add: canadian_banks_def)

lemma toronto_dominion_tracked: "(''TD-CA'', ''Toronto-Dominion Bank'') \<in> set canadian_banks"
  by (simp add: canadian_banks_def)

text \<open>
  C2, as the code has it. For every dictionary and every tracked bank, the bank is tagged
  exactly when its ticker, or its ticker with \<^verbatim>\<open>-CA\<close> removed, is in the list under
  \<^verbatim>\<open>symbols\<close> or the list under \<^verbatim>\<open>primarySymbols\<close>, or else when its name after
  \<^verbatim>\<open>str.lower\<close> occurs in the text made of the headline, one space and the body, after
  \<^verbatim>\<open>str.lower\<close>. This holds whatever \<^verbatim>\<open>str.lower\<close> does outside ASCII. The story of the
  scenario, with symbols \<^verbatim>\<open>["RY-CA"]\<close> and headline \<^verbatim>\<open>RBC profits rise\<close>, is tagged with
  exactly \<^verbatim>\<open>RY-CA\<close>, given that \<^verbatim>\<open>str.lower\<close> lowers ASCII text as \<open>lower\<close> does.
\<close>

theorem tagging_rule:
  "(\<forall>(ticker, name) \<in> set canadian_banks.
      ticker \<in> set (check_bank_mentions str_lower news) \<longleftrightarrow>
        (if ticker \<in> set (get_or_empty (symbols news)) \<union> set (get_or_empty (primarySymbols news))
            \<or> replace ''-CA'' [] ticker
                 \<in> set (get_or_empty (symbols news)) \<union> set (get_or_empty (primarySymbols news))
         then True
         else sublist (str_lower name)
                (str_lower (fmt (headlines news) @ '' '' @ fmt (storyBody news)))))
   \<and> ((\<forall>s. ascii s \<longrightarrow> str_lower s = lower s) \<longrightarrow>
        check_bank_mentions str_lower scenario_story = [''RY-CA''])"
proof (intro conjI impI)
  show "\<forall>(ticker, name) \<in> set canadian_banks.
      ticker \<in> set (check_bank_mentions str_lower news) \<longleftrightarrow>
        (if ticker \<in> set (get_or_empty (symbols news)) \<union> set (get_or_empty (primarySymbols news))
            \<or> replace ''-CA'' [] ticker
                 \<in> set (get_or_empty (symbols news)) \<union> set (get_or_empty (primarySymbols news))
         then True
         else sublist (str_lower name)
                (str_lower (fmt (headlines news) @ '' '' @ fmt (storyBody news))))"
  proof (clarify)
    fix ticker name
    assume "(ticker, name) \<in> set canadian_banks"
    from mem_check_bank_mentions [OF this, of str_lower news]
    show "ticker \<in> set (check_bank_mentions str_lower news) \<longleftrightarrow>
        (if ticker \<in> set (get_or_empty (symbols news)) \<union> set (get_or_empty (primarySymbols news))
            \<or> replace ''-CA'' [] ticker
                 \<in> set (get_or_empty (symbols news)) \<union> set (get_or_empty (primarySymbols news))
         then True
         else sublist (str_lower name)
                (str_lower (fmt (headlines news) @ '' '' @ fmt (storyBody news))))"
      by (auto simp: full_text_def all_symbols_def)
  qed
next
  assume "\<forall>s. ascii s \<longrightarrow> str_lower s = lower s"
  then have "check_bank_mentions str_lower scenario_story = check_bank_mentions lower scenario_story"
    using ascii_scenario by (rule check_bank_mentions_ascii)
  then show "check_bank_mentions str_lower scenario_story = [''RY-CA'']"
    by (simp add: tags_scenario_story)
qed

theorem tagging_rule_witness:
  "check_bank_mentions lower scenario_story = [''RY-CA'']
   \<and> (''RY-CA'', ''Royal Bank of Canada'') \<in> set canadian_banks
   \<and> \<not> sublist ''Royal Bank of Canada''
         (fmt (headlines capitals_story) @ '' '' @ fmt (storyBody capitals_story))
   \<and> sublist (lower ''Royal Bank of Canada'')
         (lower (fmt (headlines capitals_story) @ '' '' @ fmt (storyBody capitals_story)))
   \<and> ''RY-CA'' \<in> set (check_bank_mentions lower capitals_story)
   \<and> (''TD-CA'', ''Toronto-Dominion Bank'') \<in> set canadian_banks
   \<and> ''TD-CA'' \<notin> set (check_bank_mentions lower capitals_story)
   \<and> symbols primary_story = Absent
   \<and> replace ''-CA'' [] ''TD-CA'' \<in> set (get_or_empty (primarySymbols primary_story))
   \<and> ''TD-CA'' \<in> set (check_bank_mentions lower primary_story)"
proof -
  note rule = tagging_rule [where str_lower = lower]
  have scenario: "check_bank_mentions lower scenario_story = [''RY-CA'']"
    using rule [of scenario_story] by simp
  have exact: "\<not> sublist ''Royal Bank of Canada''
         (fmt (headlines capitals_story) @ '' '' @ fmt (storyBody capitals_story))"
    by (simp add: capitals_story_def sublist_code)
  have lowered: "sublist (lower ''Royal Bank of Canada'')
         (lower (fmt (headlines capitals_story) @ '' '' @ fmt (storyBody capitals_story)))"
    by (simp add: capitals_story_def lower_def lower_char_def sublist_code)
  have not_td: "\<not> sublist (lower ''Toronto-Dominion Bank'')
         (lower (fmt (headlines capitals_story) @ '' '' @ fmt (storyBody capitals_story)))"
    by (simp add: capitals_story_def lower_def lower_char_def sublist_code)
  have no_symbols: "get_or_empty (symbols capitals_story) = []"
      "get_or_empty (primarySymbols capitals_story) = []"
    by (simp_all add: capitals_story_def)
  have primary: "symbols primary_story = Absent"
      "replace ''-CA'' [] ''TD-CA'' \<in> set (get_or_empty (primarySymbols primary_story))"
    by (simp_all add: primary_story_def)
  from rule [of capitals_story] royal_bank_tracked
  have "''RY-CA'' \<in> set (check_bank_mentions lower capitals_story) \<longleftrightarrow>
        (if ''RY-CA'' \<in> set (get_or_empty (symbols capitals_story))
                \<union> set (get_or_empty (primarySymbols capitals_story))
            \<or> replace ''-CA'' [] ''RY-CA''
                 \<in> set (get_or_empty (symbols capitals_story))
                   \<union> set (get_or_empty (primarySymbols capitals_story))
         then True
         else sublist (lower ''Royal Bank of Canada'')
                (lower (fmt (headlines capitals_story) @ '' '' @ fmt (storyBody capitals_story))))"
    by blast
  with lowered have ry: "''RY-CA'' \<in> set (check_bank_mentions lower capitals_story)"
    by (simp add: no_symbols)
  from rule [of capitals_story] toronto_dominion_tracked
  have "''TD-CA'' \<in> set (check_bank_mentions lower capitals_story) \<longleftrightarrow>
        (if ''TD-CA'' \<in> set (get_or_empty (symbols capitals_story))
                \<union> set (get_or_empty (primarySymbols capitals_story))
            \<or> replace ''-CA'' [] ''TD-CA''
                 \<in> set (get_or_empty (symbols capitals_story))
                   \<union> set (get_or_empty (primarySymbols capitals_story))
         then True
         else sublist (lower ''Toronto-Dominion Bank'')
                (lower (fmt (headlines capitals_story) @ '' '' @ fmt (storyBody capitals_story))))"
    by blast
  with not_td have td: "''TD-CA'' \<notin> set (check_bank_mentions lower capitals_story)"
    by (simp add: no_symbols)
  from rule [of primary_story] toronto_dominion_tracked
  have "''TD-CA'' \<in> set (check_bank_mentions lower primary_story) \<longleftrightarrow>
        (if ''TD-CA'' \<in> set (get_or_empty (symbols primary_story))
                \<union> set (get_or_empty (primarySymbols primary_story))
            \<or> replace ''-CA'' [] ''TD-CA''
                 \<in> set (get_or_empty (symbols primary_story))
                   \<union> set (get_or_empty (primarySymbols primary_story))
         then True
         else sublist (lower ''Toronto-Dominion Bank'')
                (lower (fmt (headlines primary_story) @ '' '' @ fmt (storyBody primary_story))))"
    by blast
  with primary have td_primary: "''TD-CA'' \<in> set (check_bank_mentions lower primary_story)"
    by simp
  from scenario exact lowered ry td primary td_primary royal_bank_tracked toronto_dominion_tracked
  show ?thesis by (simp only: simp_thms)
qed

text \<open>
  C2 as it is written fails twice. A dictionary whose only symbol is \<^verbatim>\<open>RY\<close> is tagged
  with \<^verbatim>\<open>RY-CA\<close> although no alias is registered and the name does not occur in its
  text; and a dictionary with headline \<^verbatim>\<open>CI\<close> and body \<^verbatim>\<open>BC\<close> is not tagged with
  \<^verbatim>\<open>CM-CA\<close> although the name \<^verbatim>\<open>CIBC\<close> occurs in the concatenation of headline and
  body.
\<close>

theorem tagging_rule_counterexample:
  "''RY-CA'' \<in> set (check_bank_mentions lower stripped_story)
   \<and> \<not> spec_matched ''RY-CA'' ''Royal Bank of Canada'' [] stripped_story
   \<and> ''CM-CA'' \<notin> set (check_bank_mentions lower split_story)
   \<and> spec_matched ''CM-CA'' ''CIBC'' [] split_story"
proof -
  have "\<not> spec_matched ''RY-CA'' ''Royal Bank of Canada'' [] stripped_story"
    by (simp add: spec_matched_def stripped_story_def all_symbols_def lower_def lower_char_def
        sublist_code)
  moreover have "spec_matched ''CM-CA'' ''CIBC'' [] split_story"
    by (simp add: spec_matched_def split_story_def all_symbols_def lower_def lower_char_def
        sublist_code)
  ultimately show ?thesis
    by (simp add: tags_stripped_story tags_split_story)
qed

text \<open>
  C10. For every dictionary and every tracked bank, the bank is tagged when its ticker
  without the suffix \<^verbatim>\<open>-CA\<close> is in the list under \<^verbatim>\<open>symbols\<close> or in the list under
  \<^verbatim>\<open>primarySymbols\<close>; the list returned holds no ticker twice, and only tickers of
  tracked banks.
\<close>

theorem stripped_ticker_tagged:
  "(\<forall>(ticker, name) \<in> set canadian_banks. \<forall>base syms.
      ticker = base @ ''-CA'' \<longrightarrow>
      symbols news = Val syms \<or> primarySymbols news = Val syms \<longrightarrow>
      base \<in> set syms \<longrightarrow>
      ticker \<in> set (check_bank_mentions str_lower news))
   \<and> distinct (check_bank_mentions str_lower news)
   \<and> set (check_bank_mentions str_lower news) \<subseteq> fst ` set canadian_banks"
proof (intro conjI)
  show "\<forall>(ticker, name) \<in> set canadian_banks. \<forall>base syms.
      ticker = base @ ''-CA'' \<longrightarrow>
      symbols news = Val syms \<or> primarySymbols news = Val syms \<longrightarrow>
      base \<in> set syms \<longrightarrow>
      ticker \<in> set (check_bank_mentions str_lower news)"
  proof (clarify)
    fix ticker name base syms
    assume tracked: "(base @ ''-CA'', name) \<in> set canadian_banks"
      and listed: "symbols news = Val syms \<or> primarySymbols news = Val syms"
      and sym: "base \<in> set syms"
    have "replace ''-CA'' [] (base @ ''-CA'') = base"
      using tracked by (rule stripped_tickers) simp
    moreover from listed sym have "base \<in> all_symbols news"
      by (auto simp: all_symbols_def)
    ultimately show "base @ ''-CA'' \<in> set (check_bank_mentions str_lower news)"
      by (simp add: mem_check_bank_mentions [OF tracked])
  qed
  show "distinct (check_bank_mentions str_lower news)"
    by (rule distinct_check_bank_mentions)
  show "set (check_bank_mentions str_lower news) \<subseteq> fst ` set canadian_banks"
    by (rule check_bank_mentions_subset)
qed

theorem stripped_ticker_tagged_witness:
  "(''TD-CA'', ''Toronto-Dominion Bank'') \<in> set canadian_banks
   \<and> ''TD-CA'' = ''TD'' @ ''-CA''
   \<and> symbols primary_story = Absent
   \<and> primarySymbols primary_story = Val [''TD'']
   \<and> ''TD-CA'' \<in> set (check_bank_mentions lower primary_story)
   \<and> (''RY-CA'', ''Royal Bank of Canada'') \<in> set canadian_banks
   \<and> symbols stripped_story = Val [''RY'']
   \<and> ''RY-CA'' \<in> set (check_bank_mentions lower stripped_story)"
proof -
  have fields: "symbols primary_story = Absent" "primarySymbols primary_story = Val [''TD'']"
      "symbols stripped_story = Val [''RY'']"
    by (simp_all add: primary_story_def stripped_story_def)
  from stripped_ticker_tagged [of primary_story lower] toronto_dominion_tracked
  have "\<forall>base syms. ''TD-CA'' = base @ ''-CA'' \<longrightarrow>
          symbols primary_story = Val syms \<or> primarySymbols primary_story = Val syms \<longrightarrow>
          base \<in> set syms \<longrightarrow> ''TD-CA'' \<in> set (check_bank_mentions lower primary_story)"
    by blast
  then have "''TD-CA'' = ''TD'' @ ''-CA'' \<longrightarrow>
          symbols primary_story = Val [''TD''] \<or> primarySymbols primary_story = Val [''TD''] \<longrightarrow>
          ''TD'' \<in> set [''TD''] \<longrightarrow> ''TD-CA'' \<in> set (check_bank_mentions lower primary_story)"
    by blast
  with fields have td: "''TD-CA'' \<in> set (check_bank_mentions lower primary_story)"
    by simp
  from stripped_ticker_tagged [of stripped_story lower] royal_bank_tracked
  have "\<forall>base syms. ''RY-CA'' = base @ ''-CA'' \<longrightarrow>
          symbols stripped_story = Val syms \<or> primarySymbols stripped_story = Val syms \<longrightarrow>
          base \<in> set syms \<longrightarrow> ''RY-CA'' \<in> set (check_bank_mentions lower stripped_story)"
    by blast
  then have "''RY-CA'' = ''RY'' @ ''-CA'' \<longrightarrow>
          symbols stripped_story = Val [''RY''] \<or> primarySymbols stripped_story = Val [''RY''] \<longrightarrow>
          ''RY'' \<in> set [''RY''] \<longrightarrow> ''RY-CA'' \<in> set (check_bank_mentions lower stripped_story)"
    by blast
  with fields have ry: "''RY-CA'' \<in> set (check_bank_mentions lower stripped_story)"
    by simp
  from fields td ry royal_bank_tracked toronto_dominion_tracked show ?thesis
    by simp
qed

section \<open>Properties of the deduplicating collector\<close>

lemma id_new_record [simp]: "id' (new_record d t item) = id' item"
  by (simp add: new_record_def to_dict_def headline.defs)

lemma search_method_new_record [simp]: "search_method (new_record d t item) = d"
  by (simp add: new_record_def to_dict_def headline.defs)

lemma storyBody_new_record [simp]: "storyBody (new_record d t item) = storyBody item"
  by (simp add: new_record_def to_dict_def headline.defs)

lemma consistent_init: "consistent init"
  by (simp add: consistent_def stored_ids_def init_def)

lemma consistent_card: "consistent self \<Longrightarrow> card (unique_stories self) = length (all_news self)"
proof -
  assume c: "consistent self"
  have "card (unique_stories self) = card (Val ` unique_stories self)"
    by (simp add: card_image inj_on_def)
  also have "\<dots> = card (set (stored_ids self))" using c by (simp add: consistent_def)
  also have "\<dots> = length (stored_ids self)"
    using c distinct_card [of "stored_ids self"] by (simp only: consistent_def)
  finally show ?thesis by (simp add: stored_ids_def)
qed

lemma getattr_Some: "getattr f = Some v \<longleftrightarrow> f = Val v"
  by (cases f) auto

lemma consistent_store:
  assumes "consistent self" "id' item = Val sid" "sid \<notin> unique_stories self"
  shows "consistent (self\<lparr>unique_stories := insert sid (unique_stories self),
                          all_news := all_news self @ [new_record d t item]\<rparr>)"
  using assms by (auto simp: consistent_def stored_ids_def)

lemma search_loop_consistent:
  "consistent self \<Longrightarrow> search_loop clock d data self n = (self', n') \<Longrightarrow>
     consistent self' \<and> length (all_news self') + n = length (all_news self) + n'"
proof (induction data arbitrary: self n)
  case Nil
  then show ?case by simp
next
  case (Cons item data)
  show ?case
  proof (cases "getattr (id' item)")
    case None
    with Cons show ?thesis by simp
  next
    case (Some sid)
    show ?thesis
    proof (cases "sid \<noteq> [] \<and> sid \<notin> unique_stories self")
      case True
      let ?self2 = "self\<lparr>unique_stories := insert sid (unique_stories self),
                          all_news := all_news self @ [new_record d (clock (length (all_news self))) item]\<rparr>"
      have c2: "consistent ?self2"
        using Cons.prems(1) Some True by (intro consistent_store) (auto simp: getattr_Some)
      have run: "search_loop clock d data ?self2 (n + 1) = (self', n')"
        using Cons.prems(2) Some True by (simp add: Let_def)
      from Cons.IH [OF c2 run] show ?thesis by simp
    next
      case False
      with Cons Some show ?thesis by (simp split: if_splits)
    qed
  qed
qed


lemma search_loop_skip:
  "\<forall>item \<in> set data. \<forall>sid. getattr (id' item) = Some sid \<longrightarrow> sid = [] \<or> sid \<in> unique_stories self \<Longrightarrow>
     search_loop clock d data self n = (self, n)"
  by (induction data) (auto split: option.splits)

lemma search_loop_filter:
  "search_loop clock d (filter (\<lambda>item. getattr (id' item) \<noteq> None) data) self n =
   search_loop clock d data self n"
  by (induction data arbitrary: self n) (auto simp: Let_def split: option.splits)

lemma search_loop_bound:
  "search_loop clock d data self n = (self', n') \<Longrightarrow> n' \<le> n + length data"
proof (induction data arbitrary: self n)
  case Nil
  then show ?case by simp
next
  case (Cons item data)
  then show ?case
    by (auto simp: Let_def split: option.splits if_splits dest!: Cons.IH)
qed

lemma search_news_consistent:
  assumes "consistent self" "search_news e req d (self, w) = (n, self', w')"
  shows "consistent self' \<and> length (all_news self') = length (all_news self) + n"
proof (cases "api e (length (calls w)) req")
  case (ApiError msg)
  with assms show ?thesis by (auto simp: Let_def)
next
  case (ApiResponse data)
  with assms(2) have "search_loop (now e) d data self 0 = (self', n)"
    by (auto simp: Let_def split: prod.splits)
  from search_loop_consistent [OF assms(1) this] show ?thesis by simp
qed


lemma run_calls_consistent:
  "consistent (fst cw) \<Longrightarrow> consistent (fst (run_calls e cs cw))"
proof (induction cs arbitrary: cw)
  case Nil
  then show ?case by simp
next
  case (Cons c cs)
  obtain req d where c: "c = (req, d)" by (cases c)
  obtain self w where cw: "cw = (self, w)" by (cases cw)
  obtain n self' w' where s: "search_news e req d (self, w) = (n, self', w')"
    by (cases "search_news e req d (self, w)")
  from Cons.prems cw have "consistent self" by simp
  from search_news_consistent [OF this s] have "consistent (fst (self', w'))" by simp
  from Cons.IH [OF this] show ?case using c cw s by simp
qed



lemma search_news_response:
  "api e (length (calls w)) req = ApiResponse data \<Longrightarrow>
   search_news e req d (self, w) =
     (snd (search_loop (now e) d data self 0), fst (search_loop (now e) d data self 0),
      w\<lparr>calls := calls w @ [req]\<rparr>)"
  by (simp add: Let_def split: prod.splits)



lemma first_discovery_eval:
  "first_discovery =
     (1, \<lparr>all_news = [new_record ''Financial sector'' [] payload_s2],
          unique_stories = {''s2''}, request_count = 0\<rparr>,
      \<lparr>log = [], calls = [any_request], sleeps = []\<rparr>)"
  by (simp add: first_discovery_def answering_def payload_s2_def init_def quiet_world_def Let_def)

lemma second_discovery_eval:
  "second_discovery =
     (0, \<lparr>all_news = [new_record ''Financial sector'' [] payload_s2],
          unique_stories = {''s2''}, request_count = 0\<rparr>,
      \<lparr>log = [], calls = [any_request, any_request], sleeps = []\<rparr>)"
  by (simp add: second_discovery_def first_discovery_eval)
     (simp add: answering_def payload_s2_def Let_def)

lemma no_id_discovery_eval:
  "no_id_discovery = (0, init, \<lparr>log = [], calls = [any_request], sleeps = []\<rparr>)"
  by (simp add: no_id_discovery_def answering_def payload_no_id_def quiet_world_def Let_def)

lemma mixed_discovery_eval:
  "mixed_discovery =
     (1, \<lparr>all_news = [new_record ''Financial sector'' [] payload_s2],
          unique_stories = {''s2''}, request_count = 0\<rparr>,
      \<lparr>log = [], calls = [any_request], sleeps = []\<rparr>)"
  by (simp add: mixed_discovery_def answering_def payload_no_id_def payload_s2_def init_def
      quiet_world_def Let_def)



text \<open>
  C9. After every sequence of calls of \<^verbatim>\<open>_search_news\<close> on a new collector, there are as
  many stored records as identifiers in \<^verbatim>\<open>unique_stories\<close>, the stored records have
  pairwise different identifiers, and these are the identifiers of the set. One more call,
  whether the service answers or raises, returns the number by which both the list and
  the set grow, and leaves the same agreement.
\<close>

theorem stored_matches_unique:
  "case run_calls e cs (init, w0) of (self, w) \<Rightarrow>
     length (all_news self) = card (unique_stories self)
     \<and> distinct (map id' (all_news self))
     \<and> set (map id' (all_news self)) = Val ` unique_stories self
     \<and> (case search_news e req d (self, w) of (n, self', w') \<Rightarrow>
          length (all_news self') = length (all_news self) + n
          \<and> card (unique_stories self') = card (unique_stories self) + n
          \<and> length (all_news self') = card (unique_stories self')
          \<and> distinct (map id' (all_news self'))
          \<and> set (map id' (all_news self')) = Val ` unique_stories self')"
proof -
  obtain self w where a: "run_calls e cs (init, w0) = (self, w)"
    by (cases "run_calls e cs (init, w0)")
  obtain n self' w' where b: "search_news e req d (self, w) = (n, self', w')"
    by (cases "search_news e req d (self, w)")
  have c: "consistent self"
    using run_calls_consistent [of "(init, w0)" e cs] consistent_init a by simp
  from search_news_consistent [OF c b]
  have c': "consistent self'" and len: "length (all_news self') = length (all_news self) + n"
    by simp_all
  from c c' len show ?thesis
    by (simp add: a b consistent_card consistent_def stored_ids_def del: search_news.simps)
qed

text \<open>
  C4, as the code has it. When every payload of an answer carries an identifier that has
  been seen, the call returns 0 and leaves the collector as it was: no record is added or
  replaced, and no attribute counts the discovery. The world records the call and nothing
  else.
\<close>

theorem duplicate_changes_nothing:
  "api e (length (calls w)) req = ApiResponse data \<Longrightarrow>
   \<forall>item \<in> set data. \<exists>sid. getattr (id' item) = Some sid \<and> sid \<in> unique_stories self \<Longrightarrow>
   search_news e req d (self, w) = (0, self, w\<lparr>calls := calls w @ [req]\<rparr>)"
proof -
  assume r: "api e (length (calls w)) req = ApiResponse data"
    and seen: "\<forall>item \<in> set data. \<exists>sid. getattr (id' item) = Some sid \<and> sid \<in> unique_stories self"
  have "search_loop (now e) d data self 0 = (self, 0)"
    using seen by (intro search_loop_skip) auto
  with search_news_response [OF r] show ?thesis by simp
qed

theorem duplicate_changes_nothing_witness:
  "api (answering [payload_s2]) (length (calls (snd (snd first_discovery)))) any_request =
     ApiResponse [payload_s2]
   \<and> getattr (id' payload_s2) = Some ''s2''
   \<and> ''s2'' \<in> unique_stories (fst (snd first_discovery))
   \<and> second_discovery =
       (0, fst (snd first_discovery),
        (snd (snd first_discovery))\<lparr>calls := calls (snd (snd first_discovery)) @ [any_request]\<rparr>)"
  using duplicate_changes_nothing [where e = "answering [payload_s2]"
      and w = "snd (snd first_discovery)" and req = any_request and data = "[payload_s2]"
      and self = "fst (snd first_discovery)" and d = "''North America Financial''"]
  by (simp add: first_discovery_eval second_discovery_eval) (simp add: answering_def payload_s2_def)

text \<open>
  C4 as it is written fails: after a second strategy has found the story \<^verbatim>\<open>s2\<close> again,
  the collector is the one the first strategy left, so nothing was incremented for the
  second label.
\<close>

theorem provenance_counter_counterexample:
  "fst second_discovery = 0
   \<and> fst (snd second_discovery) = fst (snd first_discovery)
   \<and> log (snd (snd second_discovery)) = log (snd (snd first_discovery))
   \<and> sleeps (snd (snd second_discovery)) = sleeps (snd (snd first_discovery))
   \<and> map search_method (all_news (fst (snd second_discovery))) = [''Financial sector'']"
  by (simp add: first_discovery_eval second_discovery_eval)

text \<open>
  C5, as the code has it. A call whose answer holds payloads without identifier returns
  normally, writes nothing to the log, and counts and stores what the answer without
  those payloads would: each of them adds no record.
\<close>

theorem missing_identifier_discarded:
  "api e (length (calls w)) req = ApiResponse data \<Longrightarrow>
   search_news e req d (self, w) = (n, self', w') \<Longrightarrow>
     log w' = log w
     \<and> n \<le> length (filter (\<lambda>item. getattr (id' item) \<noteq> None) data)
     \<and> search_loop (now e) d (filter (\<lambda>item. getattr (id' item) \<noteq> None) data) self 0 = (self', n)"
proof -
  assume r: "api e (length (calls w)) req = ApiResponse data"
    and s: "search_news e req d (self, w) = (n, self', w')"
  let ?kept = "filter (\<lambda>item. getattr (id' item) \<noteq> None) data"
  from search_news_response [OF r, of d self] s
  have l: "search_loop (now e) d data self 0 = (self', n)" and w': "w' = w\<lparr>calls := calls w @ [req]\<rparr>"
    by (auto simp: prod_eq_iff)
  from l have k: "search_loop (now e) d ?kept self 0 = (self', n)"
    by (simp only: search_loop_filter)
  from search_loop_bound [OF k] w' k show ?thesis by simp
qed

theorem missing_identifier_discarded_witness:
  "api (answering [payload_no_id, payload_s2]) (length (calls quiet_world)) any_request =
     ApiResponse [payload_no_id, payload_s2]
   \<and> fst mixed_discovery = 1
   \<and> log (snd (snd mixed_discovery)) = log quiet_world
   \<and> filter (\<lambda>item. getattr (id' item) \<noteq> None) [payload_no_id, payload_s2] = [payload_s2]
   \<and> search_loop (now (answering [payload_no_id, payload_s2])) ''Financial sector''
        [payload_s2] init 0 = (fst (snd mixed_discovery), 1)"
  using missing_identifier_discarded [where e = "answering [payload_no_id, payload_s2]"
      and w = quiet_world and req = any_request and data = "[payload_no_id, payload_s2]"
      and d = "''Financial sector''" and self = init and n = "fst mixed_discovery"
      and self' = "fst (snd mixed_discovery)" and w' = "snd (snd mixed_discovery)"]
  by (simp add: mixed_discovery_eval)
     (simp add: answering_def payload_no_id_def payload_s2_def quiet_world_def init_def Let_def)

text \<open>
  C5 as it is written fails: a call that receives one payload without identifier returns
  0 and leaves the collector new, and the log stays empty, so no warning was logged.
\<close>

theorem data_quality_warning_counterexample:
  "fst no_id_discovery = 0
   \<and> fst (snd no_id_discovery) = init
   \<and> log (snd (snd no_id_discovery)) = []"
  by (simp add: no_id_discovery_eval)

section \<open>Properties of the retry loop\<close>

lemma loop_fail_retry:
  assumes "api_instance a = ApiError msg" "int a < n - 1" "actual_delay cfg a = Inr d"
    "time_sleep d = None"
  shows "get_news_loop cfg time_sleep api_instance n a =
     (Called a # Slept d # fst (get_news_loop cfg time_sleep api_instance n (a + 1)),
      snd (get_news_loop cfg time_sleep api_instance n (a + 1)))"
  using assms
  by (subst get_news_loop.simps) (simp add: split: prod.splits)

lemma loop_fail_last:
  assumes "api_instance a = ApiError msg" "int a = n - 1"
  shows "get_news_loop cfg time_sleep api_instance n a = ([Called a, Failed (a + 1)], Inr [])"
  using assms by (subst get_news_loop.simps) simp

lemma loop_starts_with_call:
  "int a < n \<Longrightarrow> \<exists>rest. fst (get_news_loop cfg time_sleep api_instance n a) = Called a # rest"
  by (subst get_news_loop.simps)
     (auto split: api_result.splits prod.splits sum.splits option.splits)

lemma loop_step:
  assumes "get_news_loop cfg time_sleep api_instance n a = (tr, r)"
  shows "(\<exists>msg d tr'. api_instance a = ApiError msg \<and> int a < n - 1
            \<and> actual_delay cfg a = Inr d \<and> time_sleep d = None
            \<and> get_news_loop cfg time_sleep api_instance n (a + 1) = (tr', r)
            \<and> tr = Called a # Slept d # tr')
         \<or> delays tr = [] \<and> (tr = [] \<or> (\<forall>d. last tr \<noteq> Slept d))"
  using assms
  by (subst (asm) get_news_loop.simps)
     (auto split: if_splits api_result.splits prod.splits sum.splits option.splits)

lemma loop_delays:
  "get_news_loop cfg time_sleep api_instance n a = (tr, r) \<Longrightarrow> k < length (delays tr) \<Longrightarrow>
     actual_delay cfg (a + k) = Inr (delays tr ! k)
     \<and> time_sleep (delays tr ! k) = None
     \<and> (\<exists>msg. api_instance (a + k) = ApiError msg)
     \<and> int (a + k) < n - 1"
proof (induction k arbitrary: a tr)
  case 0
  from loop_step [OF "0.prems"(1)] "0.prems"(2) show ?case by auto
next
  case (Suc k)
  from loop_step [OF Suc.prems(1)] Suc.prems(2) obtain msg d tr' where
    rec: "get_news_loop cfg time_sleep api_instance n (a + 1) = (tr', r)"
    and tr: "tr = Called a # Slept d # tr'"
    by auto
  from tr Suc.prems(2) have "k < length (delays tr')" by simp
  from Suc.IH [OF rec this] tr show ?case by simp
qed

lemma loop_never_ends_asleep:
  "get_news_loop cfg time_sleep api_instance n a = (tr, r) \<Longrightarrow>
     tr = [] \<or> (\<forall>d. last tr \<noteq> Slept d)"
proof (induction "nat (n - int a)" arbitrary: a tr)
  case 0
  from loop_step [OF "0.prems"] "0.hyps" show ?case by auto
next
  case (Suc m)
  from loop_step [OF Suc.prems] show ?case
  proof
    assume "\<exists>msg d tr'. api_instance a = ApiError msg \<and> int a < n - 1
            \<and> actual_delay cfg a = Inr d \<and> time_sleep d = None
            \<and> get_news_loop cfg time_sleep api_instance n (a + 1) = (tr', r)
            \<and> tr = Called a # Slept d # tr'"
    then obtain d tr' where retry: "int a < n - 1"
      and rec: "get_news_loop cfg time_sleep api_instance n (a + 1) = (tr', r)"
      and tr: "tr = Called a # Slept d # tr'"
      by blast
    from retry Suc.hyps(2) have "m = nat (n - int (a + 1))" by simp
    from Suc.hyps(1) [OF this rec] have "tr' = [] \<or> (\<forall>d. last tr' \<noteq> Slept d)" .
    moreover from retry have "int (a + 1) < n" by simp
    from loop_starts_with_call [OF this, of cfg time_sleep api_instance] rec have "tr' \<noteq> []"
      by auto
    ultimately show ?thesis using tr by simp
  next
    assume "delays tr = [] \<and> (tr = [] \<or> (\<forall>d. last tr \<noteq> Slept d))"
    then show ?thesis by simp
  qed
qed

lemma loop_sleeps_when_failing:
  "\<forall>k \<le> j. (\<exists>msg. api_instance (a + k) = ApiError msg)
            \<and> (\<exists>d. actual_delay cfg (a + k) = Inr d \<and> time_sleep d = None) \<Longrightarrow>
   int (a + j) < n - 1 \<Longrightarrow>
   j < length (delays (fst (get_news_loop cfg time_sleep api_instance n a)))"
proof (induction j arbitrary: a)
  case 0
  then obtain msg d where "api_instance a = ApiError msg" "actual_delay cfg a = Inr d"
      "time_sleep d = None"
    by auto
  from loop_fail_retry [where api_instance = api_instance and time_sleep = time_sleep, OF this(1) _ this(2,3)] 0
  show ?case by simp
next
  case (Suc j)
  from Suc.prems(1) have "(\<exists>msg. api_instance (a + 0) = ApiError msg)
            \<and> (\<exists>d. actual_delay cfg (a + 0) = Inr d \<and> time_sleep d = None)"
    by blast
  then obtain msg d where f: "api_instance a = ApiError msg" and d: "actual_delay cfg a = Inr d"
      "time_sleep d = None"
    by auto
  from Suc.prems(2) have retry: "int a < n - 1" by simp
  have "\<forall>k \<le> j. (\<exists>msg. api_instance (a + 1 + k) = ApiError msg)
            \<and> (\<exists>d. actual_delay cfg (a + 1 + k) = Inr d \<and> time_sleep d = None)"
  proof (intro allI impI)
    fix k assume "k \<le> j"
    then have "Suc k \<le> Suc j" by simp
    with Suc.prems(1) have "(\<exists>msg. api_instance (a + Suc k) = ApiError msg)
            \<and> (\<exists>d. actual_delay cfg (a + Suc k) = Inr d \<and> time_sleep d = None)"
      by blast
    then show "(\<exists>msg. api_instance (a + 1 + k) = ApiError msg)
            \<and> (\<exists>d. actual_delay cfg (a + 1 + k) = Inr d \<and> time_sleep d = None)"
      by simp
  qed
  moreover from Suc.prems(2) have "int (a + 1 + j) < n - 1" by simp
  ultimately have "j < length (delays (fst (get_news_loop cfg time_sleep api_instance n (a + 1))))"
    by (rule Suc.IH)
  with loop_fail_retry [where api_instance = api_instance and time_sleep = time_sleep, OF f retry d] show ?case by simp
qed

lemma backoff_enabled_iff: "backoff_enabled b \<longleftrightarrow> b = Val True"
  by (cases b) auto

lemma format_1f_Inr: "format_1f x = Inr d \<Longrightarrow> d = x"
  by (cases x) (auto split: if_splits)

lemma format_1f_small:
  "val x = Some r \<Longrightarrow> 0 \<le> r \<Longrightarrow> r \<le> 1000000000 \<Longrightarrow> format_1f x = Inr x"
proof (cases x)
  case (PyInt i)
  assume "val x = Some r" "0 \<le> r" "r \<le> 1000000000"
  with PyInt have "0 \<le> i" "i \<le> 1000000000" by auto
  moreover have "(1000000000 :: int) < 2 ^ 1024 - 2 ^ 970" by simp
  ultimately have "\<bar>i\<bar> < 2 ^ 1024 - 2 ^ 970" by linarith
  with PyInt show ?thesis by simp
qed auto

lemma py_lt_val: "val a = Some x \<Longrightarrow> val b = Some y \<Longrightarrow> py_lt a b \<longleftrightarrow> x < y"
  by (cases a; cases b) auto

lemma py_min_val:
  "val m = Some c \<Longrightarrow> val e = Some x \<Longrightarrow> val (if py_lt m e then m else e) = Some (min x c)"
  by (auto simp: py_lt_val min_def)

lemma times_power_val:
  "times_power rd k = Inr e \<Longrightarrow> val rd = Some r \<Longrightarrow> \<bar>r * 2 ^ k\<bar> < 2 ^ 1024 \<Longrightarrow>
     val e = Some (r * 2 ^ k)"
  by (cases rd) (auto split: if_splits)

lemma times_power_nonneg:
  assumes "val rd = Some r" "0 \<le> r" "k < 1024"
  shows "times_power rd k = Inr PyInf
         \<or> (\<exists>e x. times_power rd k = Inr e \<and> val e = Some x \<and> 0 \<le> x)"
proof (cases rd)
  case (PyInt i)
  with assms show ?thesis by simp
next
  case (PyFloat q)
  with assms have "0 \<le> q * 2 ^ k" by simp
  moreover have "(0 :: real) < 2 ^ 1024" by simp
  ultimately have "\<not> q * 2 ^ k \<le> - (2 ^ 1024)" by linarith
  with PyFloat assms \<open>0 \<le> q * 2 ^ k\<close> show ?thesis by auto
qed (use assms in auto)

lemma actual_delay_fixed:
  "use_exponential_backoff cfg \<noteq> Val True \<Longrightarrow> actual_delay cfg k = Inr d \<Longrightarrow>
     retry_delay cfg = Val d"
  by (auto simp: actual_delay_def backoff_enabled_iff dest: format_1f_Inr split: field.splits)

lemma actual_delay_backoff:
  assumes "use_exponential_backoff cfg = Val True" "actual_delay cfg k = Inr d"
    and "retry_delay cfg = Val rd" "val rd = Some r" "\<bar>r * 2 ^ k\<bar> < 2 ^ 1024"
    and "max_backoff_delay cfg = Absent \<and> c = 60
         \<or> (\<exists>m. max_backoff_delay cfg = Val m \<and> val m = Some c)"
  shows "val d = Some (min (r * 2 ^ k) c)"
proof -
  from assms(1,2,3) obtain e where e: "times_power rd k = Inr e"
    by (auto simp: actual_delay_def split: sum.splits)
  from times_power_val [OF e assms(4,5)] have ve: "val e = Some (r * 2 ^ k)" .
  from assms(6) show ?thesis
  proof
    assume a: "max_backoff_delay cfg = Absent \<and> c = 60"
    with assms(1,2,3) e have "d = (if py_lt (PyFloat 60) e then PyFloat 60 else e)"
      by (auto simp: actual_delay_def dest!: format_1f_Inr)
    with py_min_val [of "PyFloat 60" 60 e, OF _ ve] a show ?thesis by simp
  next
    assume "\<exists>m. max_backoff_delay cfg = Val m \<and> val m = Some c"
    then obtain m where m: "max_backoff_delay cfg = Val m" "val m = Some c" by blast
    with assms(1,2,3) e have "d = (if py_lt m e then m else e)"
      by (auto simp: actual_delay_def dest!: format_1f_Inr)
    with py_min_val [OF m(2) ve] show ?thesis by simp
  qed
qed

lemma capped_small:
  assumes "val m = Some c" "0 \<le> c" "c \<le> 1000000000"
    and "e = PyInf \<or> (\<exists>x. val e = Some x \<and> 0 \<le> x)"
  shows "\<exists>x. val (if py_lt m e then m else e) = Some x \<and> 0 \<le> x \<and> x \<le> 1000000000"
proof -
  from assms(4) show ?thesis
  proof
    assume "e = PyInf"
    with assms(1) have "py_lt m e" by (cases m) auto
    with assms(1-3) show ?thesis by simp
  next
    assume "\<exists>x. val e = Some x \<and> 0 \<le> x"
    then obtain x where x: "val e = Some x" "0 \<le> x" by blast
    from py_min_val [OF assms(1) x(1)] assms(2,3) x(2) show ?thesis
      by (auto simp: min_def)
  qed
qed

lemma actual_delay_accepted:
  assumes "retry_delay cfg = Val rd" "val rd = Some r" "0 \<le> r" "r \<le> 1000000000"
    and "use_exponential_backoff cfg = Val True \<longrightarrow>
           k < 1024 \<and>
           (max_backoff_delay cfg = Absent
            \<or> (\<exists>m c. max_backoff_delay cfg = Val m \<and> val m = Some c \<and> 0 \<le> c \<and> c \<le> 1000000000))"
  shows "\<exists>d x. actual_delay cfg k = Inr d \<and> val d = Some x \<and> 0 \<le> x \<and> x \<le> 1000000000"
proof (cases "use_exponential_backoff cfg = Val True")
  case False
  with assms(1-4) format_1f_small [OF assms(2-4)] show ?thesis
    by (auto simp: actual_delay_def backoff_enabled_iff)
next
  case True
  with assms(5) have k: "k < 1024" by simp
  from times_power_nonneg [OF assms(2,3) k] obtain e where
    e: "times_power rd k = Inr e" "e = PyInf \<or> (\<exists>x. val e = Some x \<and> 0 \<le> x)"
    by auto
  from True assms(5) consider "max_backoff_delay cfg = Absent"
    | m c where "max_backoff_delay cfg = Val m" "val m = Some c" "0 \<le> c" "c \<le> 1000000000"
    by blast
  then show ?thesis
  proof cases
    case 1
    from capped_small [of "PyFloat 60" 60 e, OF _ _ _ e(2)] obtain x where
      x: "val (if py_lt (PyFloat 60) e then PyFloat 60 else e) = Some x" "0 \<le> x" "x \<le> 1000000000"
      by auto
    from format_1f_small [OF x] x True 1 e(1) assms(1) show ?thesis
      by (auto simp: actual_delay_def)
  next
    case 2
    from capped_small [OF 2(2-4) e(2)] obtain x where
      x: "val (if py_lt m e then m else e) = Some x" "0 \<le> x" "x \<le> 1000000000"
      by auto
    from format_1f_small [OF x] x True 2(1) e(1) assms(1) show ?thesis
      by (auto simp: actual_delay_def)
  qed
qed

lemma failing_run_eval:
  "get_news_for_ticker backoff_settings py_sleep always_failing =
     ([Called 0, Slept (PyFloat 2), Called 1, Slept (PyInt 3), Called 2, Failed 3], Inr [])"
  by (simp add: get_news_for_ticker_def backoff_settings_def always_failing_def actual_delay_def
      get_news_loop.simps [of _ _ _ _ 0] get_news_loop.simps [of _ _ _ _ "Suc 0"]
      get_news_loop.simps [of _ _ _ _ "Suc (Suc 0)"])

lemma py_sleep_accepts:
  "\<forall>d x. val d = Some x \<longrightarrow> 0 \<le> x \<longrightarrow> x \<le> 1000000000 \<longrightarrow> py_sleep d = None"
proof (intro allI impI)
  fix d x
  assume v: "val d = Some x" and x: "0 \<le> x" "x \<le> 1000000000"
  have b: "(1000000000 :: real) * 1000000000 \<le> 2 ^ 63 - 1" by simp
  show "py_sleep d = None"
  proof (cases d)
    case (PyInt i)
    with v x have i: "0 \<le> i" "i \<le> 1000000000" by auto
    then have "i * 1000000000 \<le> 1000000000 * 1000000000" by simp
    moreover have "(1000000000 :: int) * 1000000000 \<le> 2 ^ 63 - 1" by simp
    moreover from i have "0 \<le> i * 1000000000" by simp
    moreover have "- (2 ^ 63) < (0 :: int)" by simp
    ultimately show ?thesis using PyInt i by auto
  next
    case (PyFloat r)
    with v x have r: "0 \<le> r" "r \<le> 1000000000" by auto
    then have "r * 1000000000 \<le> 1000000000 * 1000000000" by simp
    moreover from r have "0 \<le> r * 1000000000" by simp
    moreover have "- (2 ^ 63) < (0 :: real)" by simp
    ultimately show ?thesis using PyFloat r b by auto
  qed (use v in auto)
qed

lemma three_attempts_run:
  assumes "\<forall>k < 10. \<exists>msg. api_instance k = ApiError msg"
    and "\<forall>d x. val d = Some x \<longrightarrow> 0 \<le> x \<longrightarrow> x \<le> 1000000000 \<longrightarrow> time_sleep d = None"
    and "retry_delay cfg = Val rd" "val rd = Some r" "0 \<le> r" "r \<le> 1000000000"
    and "use_exponential_backoff cfg = Val True \<longrightarrow>
           max_backoff_delay cfg = Absent
           \<or> (\<exists>m c. max_backoff_delay cfg = Val m \<and> val m = Some c \<and> 0 \<le> c \<and> c \<le> 1000000000)"
  shows "\<exists>d0 d1. get_news_loop cfg time_sleep api_instance 3 0 =
           ([Called 0, Slept d0, Called 1, Slept d1, Called 2, Failed 3], Inr [])"
proof -
  from assms(1) have "\<exists>msg. api_instance 0 = ApiError msg" "\<exists>msg. api_instance 1 = ApiError msg"
    "\<exists>msg. api_instance 2 = ApiError msg"
    by simp_all
  then obtain m0 m1 m2 where
    f: "api_instance 0 = ApiError m0" "api_instance 1 = ApiError m1" "api_instance 2 = ApiError m2"
    by blast
  have acc: "\<exists>d. actual_delay cfg k = Inr d \<and> time_sleep d = None" if "k < 1024" for k
  proof -
    from actual_delay_accepted [OF assms(3-6), of k] assms(7) that
    obtain d x where "actual_delay cfg k = Inr d" "val d = Some x" "0 \<le> x" "x \<le> 1000000000"
      by auto
    with assms(2) show ?thesis by blast
  qed
  from acc [of 0] obtain d0 where d0: "actual_delay cfg 0 = Inr d0" "time_sleep d0 = None"
    by auto
  from acc [of 1] obtain d1 where d1: "actual_delay cfg 1 = Inr d1" "time_sleep d1 = None"
    by auto
  have l2: "get_news_loop cfg time_sleep api_instance 3 2 = ([Called 2, Failed 3], Inr [])"
    using loop_fail_last [where api_instance = api_instance, OF f(3), of 3 cfg time_sleep]
    by simp
  have l1: "get_news_loop cfg time_sleep api_instance 3 1 =
      ([Called 1, Slept d1, Called 2, Failed 3], Inr [])"
    using loop_fail_retry [where api_instance = api_instance and time_sleep = time_sleep,
        OF f(2) _ d1, of 3] l2
    by (simp add: numeral_2_eq_2)
  have "get_news_loop cfg time_sleep api_instance 3 0 =
      ([Called 0, Slept d0, Called 1, Slept d1, Called 2, Failed 3], Inr [])"
    using loop_fail_retry [where api_instance = api_instance and time_sleep = time_sleep,
        OF f(1) _ d0, of 3] l1
    by simp
  then show ?thesis by blast
qed

text \<open>
  C3, as the code has it. With \<^verbatim>\<open>max_retries = 3\<close>, a service that fails on each of its
  first ten calls, a \<^verbatim>\<open>retry_delay\<close> that is a number from 0 to \<open>10^9\<close> seconds and, when
  exponential backoff is on, a \<^verbatim>\<open>max_backoff_delay\<close> that is missing or such a number,
  and a \<^verbatim>\<open>time.sleep\<close> that accepts the delays of that range, \<^verbatim>\<open>get_news_for_ticker\<close>
  makes exactly the three attempts 0, 1 and 2, sleeps after the first and the second,
  records the failure in the error log after the third, and returns the empty list: no
  exception leaves the function.
\<close>

theorem bounded_retry:
  assumes "max_retries cfg = Val 3"
    and "\<forall>k < 10. \<exists>msg. api_instance k = ApiError msg"
    and "\<forall>d x. val d = Some x \<longrightarrow> 0 \<le> x \<longrightarrow> x \<le> 1000000000 \<longrightarrow> time_sleep d = None"
    and "retry_delay cfg = Val rd" "val rd = Some r" "0 \<le> r" "r \<le> 1000000000"
    and "use_exponential_backoff cfg = Val True \<longrightarrow>
           max_backoff_delay cfg = Absent
           \<or> (\<exists>m c. max_backoff_delay cfg = Val m \<and> val m = Some c \<and> 0 \<le> c \<and> c \<le> 1000000000)"
  shows "(\<exists>d0 d1. get_news_for_ticker cfg time_sleep api_instance =
            ([Called 0, Slept d0, Called 1, Slept d1, Called 2, Failed 3], Inr []))
         \<and> attempts (fst (get_news_for_ticker cfg time_sleep api_instance)) = [0, 1, 2]"
proof -
  from three_attempts_run [OF assms(2-8)] obtain d0 d1 where
    "get_news_loop cfg time_sleep api_instance 3 0 =
       ([Called 0, Slept d0, Called 1, Slept d1, Called 2, Failed 3], Inr [])"
    by blast
  with assms(1) show ?thesis by (simp add: get_news_for_ticker_def)
qed

theorem bounded_retry_witness:
  "max_retries backoff_settings = Val 3
   \<and> always_failing 9 = ApiError ''503 Service Unavailable''
   \<and> py_sleep (PyFloat 1000000000) = None
   \<and> retry_delay backoff_settings = Val (PyFloat 2)
   \<and> max_backoff_delay backoff_settings = Val (PyInt 3)
   \<and> get_news_for_ticker backoff_settings py_sleep always_failing =
       ([Called 0, Slept (PyFloat 2), Called 1, Slept (PyInt 3), Called 2, Failed 3], Inr [])
   \<and> attempts (fst (get_news_for_ticker backoff_settings py_sleep always_failing)) = [0, 1, 2]"
proof -
  have cfg: "max_retries backoff_settings = Val 3" "retry_delay backoff_settings = Val (PyFloat 2)"
      "max_backoff_delay backoff_settings = Val (PyInt 3)"
      "use_exponential_backoff backoff_settings = Val True"
    by (simp_all add: backoff_settings_def)
  have fails: "\<forall>k < 10. \<exists>msg. always_failing k = ApiError msg"
    by (simp add: always_failing_def)
  have cap: "use_exponential_backoff backoff_settings = Val True \<longrightarrow>
           max_backoff_delay backoff_settings = Absent
           \<or> (\<exists>m c. max_backoff_delay backoff_settings = Val m \<and> val m = Some c
                 \<and> 0 \<le> c \<and> c \<le> 1000000000)"
    by (simp add: cfg)
  from bounded_retry [OF cfg(1) fails py_sleep_accepts cfg(2) _ _ _ cap, of 2]
  have "attempts (fst (get_news_for_ticker backoff_settings py_sleep always_failing)) = [0, 1, 2]"
    by simp
  moreover have "py_sleep (PyFloat 1000000000) = None" by simp
  ultimately show ?thesis
    by (simp add: cfg failing_run_eval always_failing_def)
qed

text \<open>
  C3 as it is written fails: with \<^verbatim>\<open>max_retries = 3\<close> and a service that always fails,
  a \<^verbatim>\<open>retry_delay\<close> of -1 makes \<^verbatim>\<open>time.sleep\<close> raise \<^verbatim>\<open>ValueError\<close> inside the handler
  of the first attempt, so one attempt is made and the exception leaves the function.
\<close>

theorem bounded_retry_counterexample:
  "max_retries negative_delay_settings = Val 3
   \<and> always_failing 9 = ApiError ''503 Service Unavailable''
   \<and> get_news_for_ticker negative_delay_settings py_sleep always_failing =
       ([Called 0], Inl ValueError)"
  by (simp add: get_news_for_ticker_def negative_delay_settings_def always_failing_def
      actual_delay_def get_news_loop.simps [of _ _ _ _ 0])

text \<open>
  C8. In every run of \<^verbatim>\<open>get_news_for_ticker\<close>, the \<open>k\<close>-th delay slept follows the failed
  attempt \<open>k\<close>, which is not the last permitted one. Without exponential backoff it is
  the configured \<^verbatim>\<open>retry_delay\<close>. With it, for a \<^verbatim>\<open>retry_delay\<close> of value \<open>r\<close> whose product
  with \<open>2 ^ k\<close> is in the range of the floats and a cap of value \<open>c\<close> (60 when the
  setting is missing), its value is \<open>min (r * 2 ^ k) c\<close>. A run never ends with a sleep.
  And when the attempts up to \<open>j\<close> fail, \<open>j\<close> is below 1024 and not the last permitted
  attempt, the configured delays are numbers from 0 to \<open>10^9\<close> seconds and \<^verbatim>\<open>time.sleep\<close>
  accepts the delays of that range, the \<open>j\<close>-th delay is slept.
\<close>

theorem backoff_delays:
  "case get_news_for_ticker cfg time_sleep api_instance of (tr, res) \<Rightarrow>
     (\<forall>k < length (delays tr).
        (\<exists>msg. api_instance k = ApiError msg)
        \<and> (\<exists>n. max_retries cfg = Val n \<and> int k < n - 1)
        \<and> time_sleep (delays tr ! k) = None
        \<and> (use_exponential_backoff cfg \<noteq> Val True \<longrightarrow> retry_delay cfg = Val (delays tr ! k))
        \<and> (use_exponential_backoff cfg = Val True \<longrightarrow>
             (\<forall>rd r c. retry_delay cfg = Val rd \<longrightarrow> val rd = Some r \<longrightarrow>
                \<bar>r * 2 ^ k\<bar> < 2 ^ 1024 \<longrightarrow>
                (max_backoff_delay cfg = Absent \<and> c = 60
                 \<or> (\<exists>m. max_backoff_delay cfg = Val m \<and> val m = Some c)) \<longrightarrow>
                val (delays tr ! k) = Some (min (r * 2 ^ k) c))))
     \<and> (tr = [] \<or> (\<forall>d. last tr \<noteq> Slept d))
     \<and> ((\<exists>n rd r.
            max_retries cfg = Val n \<and> int j < n - 1 \<and> j < 1024
            \<and> (\<forall>k \<le> j. \<exists>msg. api_instance k = ApiError msg)
            \<and> (\<forall>d x. val d = Some x \<longrightarrow> 0 \<le> x \<longrightarrow> x \<le> 1000000000 \<longrightarrow> time_sleep d = None)
            \<and> retry_delay cfg = Val rd \<and> val rd = Some r \<and> 0 \<le> r \<and> r \<le> 1000000000
            \<and> (use_exponential_backoff cfg = Val True \<longrightarrow>
                  max_backoff_delay cfg = Absent
                  \<or> (\<exists>m c. max_backoff_delay cfg = Val m \<and> val m = Some c
                        \<and> 0 \<le> c \<and> c \<le> 1000000000)))
          \<longrightarrow> j < length (delays tr))"
proof (cases "max_retries cfg")
  case Absent
  then show ?thesis by (simp add: get_news_for_ticker_def)
next
  case Null
  then show ?thesis by (simp add: get_news_for_ticker_def)
next
  case (Val n)
  obtain tr res where run: "get_news_loop cfg time_sleep api_instance n 0 = (tr, res)"
    by (cases "get_news_loop cfg time_sleep api_instance n 0")
  have a: "(\<exists>msg. api_instance k = ApiError msg)
        \<and> (\<exists>n. max_retries cfg = Val n \<and> int k < n - 1)
        \<and> time_sleep (delays tr ! k) = None
        \<and> (use_exponential_backoff cfg \<noteq> Val True \<longrightarrow> retry_delay cfg = Val (delays tr ! k))
        \<and> (use_exponential_backoff cfg = Val True \<longrightarrow>
             (\<forall>rd r c. retry_delay cfg = Val rd \<longrightarrow> val rd = Some r \<longrightarrow>
                \<bar>r * 2 ^ k\<bar> < 2 ^ 1024 \<longrightarrow>
                (max_backoff_delay cfg = Absent \<and> c = 60
                 \<or> (\<exists>m. max_backoff_delay cfg = Val m \<and> val m = Some c)) \<longrightarrow>
                val (delays tr ! k) = Some (min (r * 2 ^ k) c)))"
    if "k < length (delays tr)" for k
  proof -
    from loop_delays [OF run that]
    have d: "actual_delay cfg k = Inr (delays tr ! k)" and s: "time_sleep (delays tr ! k) = None"
      and f: "\<exists>msg. api_instance k = ApiError msg" and b: "int k < n - 1"
      by simp_all
    from d have fixed: "use_exponential_backoff cfg \<noteq> Val True \<longrightarrow>
        retry_delay cfg = Val (delays tr ! k)"
      by (auto dest: actual_delay_fixed)
    from d have backoff: "use_exponential_backoff cfg = Val True \<longrightarrow>
             (\<forall>rd r c. retry_delay cfg = Val rd \<longrightarrow> val rd = Some r \<longrightarrow>
                \<bar>r * 2 ^ k\<bar> < 2 ^ 1024 \<longrightarrow>
                (max_backoff_delay cfg = Absent \<and> c = 60
                 \<or> (\<exists>m. max_backoff_delay cfg = Val m \<and> val m = Some c)) \<longrightarrow>
                val (delays tr ! k) = Some (min (r * 2 ^ k) c))"
      by (intro impI allI) (rule actual_delay_backoff)
    from f Val b s fixed backoff show ?thesis by simp
  qed
  have b: "tr = [] \<or> (\<forall>d. last tr \<noteq> Slept d)"
    using run by (rule loop_never_ends_asleep)
  have c: "j < length (delays tr)"
    if h: "\<exists>n rd r.
            max_retries cfg = Val n \<and> int j < n - 1 \<and> j < 1024
            \<and> (\<forall>k \<le> j. \<exists>msg. api_instance k = ApiError msg)
            \<and> (\<forall>d x. val d = Some x \<longrightarrow> 0 \<le> x \<longrightarrow> x \<le> 1000000000 \<longrightarrow> time_sleep d = None)
            \<and> retry_delay cfg = Val rd \<and> val rd = Some r \<and> 0 \<le> r \<and> r \<le> 1000000000
            \<and> (use_exponential_backoff cfg = Val True \<longrightarrow>
                  max_backoff_delay cfg = Absent
                  \<or> (\<exists>m c. max_backoff_delay cfg = Val m \<and> val m = Some c
                        \<and> 0 \<le> c \<and> c \<le> 1000000000))"
  proof -
    from h Val obtain rd r where j: "int j < n - 1" "j < 1024"
      and fails: "\<forall>k \<le> j. \<exists>msg. api_instance k = ApiError msg"
      and sleep: "\<forall>d x. val d = Some x \<longrightarrow> 0 \<le> x \<longrightarrow> x \<le> 1000000000 \<longrightarrow> time_sleep d = None"
      and rd: "retry_delay cfg = Val rd" "val rd = Some r" "0 \<le> r" "r \<le> 1000000000"
      and cap: "use_exponential_backoff cfg = Val True \<longrightarrow>
                  max_backoff_delay cfg = Absent
                  \<or> (\<exists>m c. max_backoff_delay cfg = Val m \<and> val m = Some c
                        \<and> 0 \<le> c \<and> c \<le> 1000000000)"
      by auto
    have "(\<exists>msg. api_instance (0 + k) = ApiError msg)
            \<and> (\<exists>d. actual_delay cfg (0 + k) = Inr d \<and> time_sleep d = None)" if "k \<le> j" for k
    proof -
      from that j(2) have "k < 1024" by simp
      with actual_delay_accepted [OF rd, of k] cap
      obtain d x where "actual_delay cfg k = Inr d" "val d = Some x" "0 \<le> x" "x \<le> 1000000000"
        by auto
      with sleep fails that show ?thesis by auto
    qed
    then have "\<forall>k \<le> j. (\<exists>msg. api_instance (0 + k) = ApiError msg)
            \<and> (\<exists>d. actual_delay cfg (0 + k) = Inr d \<and> time_sleep d = None)"
      by blast
    from loop_sleeps_when_failing [OF this, where n = n] j(1) run
    show ?thesis by simp
  qed
  from a b c show ?thesis
    by (simp add: get_news_for_ticker_def Val run)
qed

theorem backoff_delays_witness:
  "delays (fst (get_news_for_ticker backoff_settings py_sleep always_failing)) =
     [PyFloat 2, PyInt 3]
   \<and> retry_delay backoff_settings = Val (PyFloat 2)
   \<and> max_backoff_delay backoff_settings = Val (PyInt 3)
   \<and> val (delays (fst (get_news_for_ticker backoff_settings py_sleep always_failing)) ! 0) =
       Some (min (2 * 2 ^ 0) 3)
   \<and> val (delays (fst (get_news_for_ticker backoff_settings py_sleep always_failing)) ! 1) =
       Some (min (2 * 2 ^ 1) 3)
   \<and> last (fst (get_news_for_ticker backoff_settings py_sleep always_failing)) = Failed 3"
proof -
  let ?tr = "fst (get_news_for_ticker backoff_settings py_sleep always_failing)"
  have cfg: "retry_delay backoff_settings = Val (PyFloat 2)"
      "max_backoff_delay backoff_settings = Val (PyInt 3)"
      "use_exponential_backoff backoff_settings = Val True"
      "max_retries backoff_settings = Val 3"
    by (simp_all add: backoff_settings_def)
  have pre: "\<exists>n rd r.
            max_retries backoff_settings = Val n \<and> int 1 < n - 1 \<and> (1 :: nat) < 1024
            \<and> (\<forall>k \<le> 1. \<exists>msg. always_failing k = ApiError msg)
            \<and> (\<forall>d x. val d = Some x \<longrightarrow> 0 \<le> x \<longrightarrow> x \<le> 1000000000 \<longrightarrow> py_sleep d = None)
            \<and> retry_delay backoff_settings = Val rd \<and> val rd = Some r \<and> 0 \<le> r
            \<and> r \<le> 1000000000
            \<and> (use_exponential_backoff backoff_settings = Val True \<longrightarrow>
                  max_backoff_delay backoff_settings = Absent
                  \<or> (\<exists>m c. max_backoff_delay backoff_settings = Val m \<and> val m = Some c
                        \<and> 0 \<le> c \<and> c \<le> 1000000000))"
    using py_sleep_accepts by (simp add: cfg always_failing_def)
  from backoff_delays [where cfg = backoff_settings and time_sleep = py_sleep
      and api_instance = always_failing and j = 1] pre
  have len: "1 < length (delays ?tr)"
    and all: "\<forall>k < length (delays ?tr).
        use_exponential_backoff backoff_settings = Val True \<longrightarrow>
             (\<forall>rd r c. retry_delay backoff_settings = Val rd \<longrightarrow> val rd = Some r \<longrightarrow>
                \<bar>r * 2 ^ k\<bar> < 2 ^ 1024 \<longrightarrow>
                (max_backoff_delay backoff_settings = Absent \<and> c = 60
                 \<or> (\<exists>m. max_backoff_delay backoff_settings = Val m \<and> val m = Some c)) \<longrightarrow>
                val (delays ?tr ! k) = Some (min (r * 2 ^ k) c))"
    by (simp_all add: case_prod_beta)
  have formula: "val (delays ?tr ! k) = Some (min (2 * 2 ^ k) 3)" if "k \<le> 1" for k
  proof -
    from that len have "k < length (delays ?tr)" by simp
    moreover have "\<bar>(2 :: real) * 2 ^ k\<bar> < 2 ^ 1024"
      using that by (cases k) simp_all
    moreover have "val (PyFloat 2) = Some 2" "val (PyInt 3) = Some 3" by simp_all
    ultimately show ?thesis using all cfg by blast
  qed
  from formula [of 0] formula [of 1] show ?thesis
    by (simp add: failing_run_eval cfg)
qed

section \<open>Properties of a whole run\<close>

lemma rate_limit_world:
  "calls (snd (rate_limit cw)) = calls (snd cw) \<and> log (snd (rate_limit cw)) = log (snd cw)"
  by (cases cw) (simp add: Let_def)

lemma search_news_calls:
  "calls (snd (snd (search_news e req d cw))) = calls (snd cw) @ [req]"
  by (cases cw) (simp add: Let_def split: api_result.splits prod.splits)

lemma search_news_log:
  "log (snd (snd (search_news e req d cw))) =
     log (snd cw) @
       (case api e (length (calls (snd cw))) req of
          ApiError msg \<Rightarrow> [failure_record d msg]
        | ApiResponse data \<Rightarrow> [])"
  by (cases cw) (simp add: Let_def failure_record_def split: api_result.splits prod.splits)

lemma search_news_error:
  "api e (length (calls w)) req = ApiError msg \<Longrightarrow>
   search_news e req d (self, w) =
     (0, self, w\<lparr>calls := calls w @ [req], log := log w @ [failure_record d msg]\<rparr>)"
  by (simp add: Let_def failure_record_def)

lemma run_strategies_append:
  "run_strategies e (xs @ ys) cw = run_strategies e ys (run_strategies e xs cw)"
  by (induction e xs cw rule: run_strategies.induct)
     (simp_all del: search_news.simps rate_limit.simps)

lemma ticker_loop_run:
  "ticker_loop e start until banks cw =
     run_strategies e
       (map (\<lambda>(ticker, name).
            (\<lparr>tickers = [ticker], sectors = [], regions = [],
              start_date = start, end_date = until\<rparr>,
             ticker @ '' ('' @ name @ '')'')) banks) cw"
  by (induction e start until banks cw rule: ticker_loop.induct)
     (simp_all del: search_news.simps rate_limit.simps split: prod.splits)

lemma run_strategies_calls:
  "calls (snd (run_strategies e ss cw)) = calls (snd cw) @ map fst ss"
proof (induction ss arbitrary: cw)
  case Nil
  show ?case by simp
next
  case (Cons s ss)
  obtain req d where s: "s = (req, d)" by (cases s)
  show ?case
    by (simp add: s Cons.IH search_news_calls rate_limit_world del: search_news.simps rate_limit.simps)
qed

lemma run_strategies_log_prefix:
  "prefix (log (snd cw)) (log (snd (run_strategies e ss cw)))"
proof (induction ss arbitrary: cw)
  case Nil
  show ?case by simp
next
  case (Cons s ss)
  obtain req d where s: "s = (req, d)" by (cases s)
  have "prefix (log (snd cw)) (log (snd (snd (search_news e req d (rate_limit cw)))))"
    by (simp add: search_news_log rate_limit_world del: search_news.simps rate_limit.simps)
  also have "prefix \<dots> (log (snd (run_strategies e ss (snd (search_news e req d (rate_limit cw))))))"
    by (rule Cons.IH)
  finally show ?case by (simp add: s del: search_news.simps rate_limit.simps)
qed

lemma run_strategies_failure_logged:
  "k < length ss \<Longrightarrow> api e (length (calls (snd cw)) + k) (fst (ss ! k)) = ApiError msg \<Longrightarrow>
   failure_record (snd (ss ! k)) msg \<in> set (log (snd (run_strategies e ss cw)))"
proof (induction ss arbitrary: cw k)
  case Nil
  then show ?case by simp
next
  case (Cons s ss)
  obtain req d where s: "s = (req, d)" by (cases s)
  let ?cw1 = "snd (search_news e req d (rate_limit cw))"
  show ?case
  proof (cases k)
    case 0
    with Cons.prems s have "api e (length (calls (snd (rate_limit cw)))) req = ApiError msg"
      by (simp add: rate_limit_world del: rate_limit.simps)
    then have "failure_record d msg \<in> set (log (snd ?cw1))"
      by (simp add: search_news_log del: search_news.simps rate_limit.simps)
    moreover have "prefix (log (snd ?cw1)) (log (snd (run_strategies e ss ?cw1)))"
      by (rule run_strategies_log_prefix)
    ultimately show ?thesis using 0 s
      by (auto simp: prefix_def simp del: search_news.simps rate_limit.simps)
  next
    case (Suc k')
    with Cons.prems have k': "k' < length ss" by simp
    have "length (calls (snd ?cw1)) + k' = length (calls (snd cw)) + k"
      using Suc by (simp add: search_news_calls rate_limit_world del: search_news.simps rate_limit.simps)
    with Cons.prems Suc have "api e (length (calls (snd ?cw1)) + k') (fst (ss ! k')) = ApiError msg"
      by simp
    from Cons.IH [OF k' this] Suc s show ?thesis
      by (simp del: search_news.simps rate_limit.simps)
  qed
qed

lemma process_results_log:
  "set (log (snd cw)) \<subseteq> set (log (snd (process_results sort_values cw)))"
  by (cases cw) (auto simp: Let_def)

lemma strategies_labels:
  "map snd (strategies start until) =
     [''RY-CA (Royal Bank of Canada)'', ''TD-CA (Toronto-Dominion Bank)'',
      ''BMO-CA (Bank of Montreal)'', ''BNS-CA (Bank of Nova Scotia)'', ''CM-CA (CIBC)'',
      ''NA-CA (National Bank of Canada)'', ''LB-CA (Laurentian Bank)'',
      ''Financial sector'', ''North America Financial'']"
  by (simp add: strategies_def canadian_banks_def)

lemma collect_news_run:
  "collect_news e sort_values until days_back cw =
     (case window_start until days_back of
        Inl err \<Rightarrow> Inl err
      | Inr start \<Rightarrow>
          (let cw3 = run_strategies e (strategies start until) cw
           in Inr (fst (process_results sort_values cw3), fst cw3,
                   snd (process_results sort_values cw3))))"
  by (simp add: collect_news_def strategies_def ticker_loop_run run_strategies_append Let_def
      split: prod.splits sum.splits del: search_news.simps rate_limit.simps process_results.simps)

lemma window_start_cases:
  "window_start until days_back =
     (if \<bar>days_back\<bar> \<le> 999999999 \<and> 0 \<le> until - days_back * 86400
           \<and> until - days_back * 86400 \<le> 315537897599
      then Inr (until - days_back * 86400) else Inl OverflowError)"
  by (simp add: window_start_def Let_def)

text \<open>
  C7. A search whose call of the service raises is not repeated: \<^verbatim>\<open>_search_news\<close> makes
  the one call, returns 0, leaves the collector as it was and logs one record, a warning
  when the text of the exception contains \<^verbatim>\<open>400\<close> and an error otherwise.
  \<^verbatim>\<open>collect_news\<close> raises \<^verbatim>\<open>OverflowError\<close> before any search exactly when the start
  of the window cannot be computed. Otherwise, whatever the service does, it makes the
  nine searches of its plan, each once and in order, and the record of every search that
  failed is in the log at the end.
\<close>

theorem rejected_filter_skipped:
  "(api e (length (calls w)) req = ApiError msg \<longrightarrow>
      search_news e req d (self, w) =
        (0, self,
         w\<lparr>calls := calls w @ [req],
           log := log w @
             [if sublist ''400'' msg then (WARNING, BadRequest d)
              else (ERROR, SearchError d (take 100 msg))]\<rparr>))
   \<and> (case collect_news e sort_values until days_back (self, w) of
        Inl err \<Rightarrow>
          err = OverflowError
          \<and> \<not> (\<bar>days_back\<bar> \<le> 999999999 \<and> 0 \<le> until - days_back * 86400
                 \<and> until - days_back * 86400 \<le> 315537897599)
      | Inr (df, self', w') \<Rightarrow>
          \<bar>days_back\<bar> \<le> 999999999 \<and> 0 \<le> until - days_back * 86400
          \<and> until - days_back * 86400 \<le> 315537897599
          \<and> calls w' = calls w @ map fst (strategies (until - days_back * 86400) until)
          \<and> (\<forall>k < 9. \<forall>msg'.
                api e (length (calls w) + k)
                  (fst (strategies (until - days_back * 86400) until ! k)) = ApiError msg' \<longrightarrow>
                failure_record (snd (strategies (until - days_back * 86400) until ! k)) msg'
                  \<in> set (log w')))
   \<and> map snd (strategies start until) =
       [''RY-CA (Royal Bank of Canada)'', ''TD-CA (Toronto-Dominion Bank)'',
        ''BMO-CA (Bank of Montreal)'', ''BNS-CA (Bank of Nova Scotia)'', ''CM-CA (CIBC)'',
        ''NA-CA (National Bank of Canada)'', ''LB-CA (Laurentian Bank)'',
        ''Financial sector'', ''North America Financial'']"
proof (intro conjI impI)
  assume "api e (length (calls w)) req = ApiError msg"
  from search_news_error [OF this, of d self]
  show "search_news e req d (self, w) =
        (0, self,
         w\<lparr>calls := calls w @ [req],
           log := log w @
             [if sublist ''400'' msg then (WARNING, BadRequest d)
              else (ERROR, SearchError d (take 100 msg))]\<rparr>)"
    by (simp add: failure_record_def)
next
  let ?ss = "strategies (until - days_back * 86400) until"
  let ?cw3 = "run_strategies e ?ss (self, w)"
  have len: "length ?ss = 9"
    using arg_cong [OF strategies_labels [of "until - days_back * 86400" until], of length]
    by simp
  have c: "calls (snd (process_results sort_values ?cw3)) = calls w @ map fst ?ss"
    using run_strategies_calls [of e ?ss "(self, w)"]
    by (cases ?cw3) (auto simp: Let_def)
  have l: "failure_record (snd (?ss ! k)) msg' \<in> set (log (snd (process_results sort_values ?cw3)))"
    if "k < 9" "api e (length (calls w) + k) (fst (?ss ! k)) = ApiError msg'" for k msg'
  proof -
    from that len have "k < length ?ss" by simp
    moreover from that have "api e (length (calls (snd (self, w))) + k) (fst (?ss ! k)) = ApiError msg'"
      by simp
    ultimately have "failure_record (snd (?ss ! k)) msg' \<in> set (log (snd ?cw3))"
      by (rule run_strategies_failure_logged)
    with process_results_log [of ?cw3 sort_values] show ?thesis by blast
  qed
  show "case collect_news e sort_values until days_back (self, w) of
        Inl err \<Rightarrow>
          err = OverflowError
          \<and> \<not> (\<bar>days_back\<bar> \<le> 999999999 \<and> 0 \<le> until - days_back * 86400
                 \<and> until - days_back * 86400 \<le> 315537897599)
      | Inr (df, self', w') \<Rightarrow>
          \<bar>days_back\<bar> \<le> 999999999 \<and> 0 \<le> until - days_back * 86400
          \<and> until - days_back * 86400 \<le> 315537897599
          \<and> calls w' = calls w @ map fst ?ss
          \<and> (\<forall>k < 9. \<forall>msg'.
                api e (length (calls w) + k) (fst (?ss ! k)) = ApiError msg' \<longrightarrow>
                failure_record (snd (?ss ! k)) msg' \<in> set (log w'))"
    using c l
    by (simp add: collect_news_run window_start_cases Let_def del: process_results.simps)
next
  show "map snd (strategies start until) =
       [''RY-CA (Royal Bank of Canada)'', ''TD-CA (Toronto-Dominion Bank)'',
        ''BMO-CA (Bank of Montreal)'', ''BNS-CA (Bank of Nova Scotia)'', ''CM-CA (CIBC)'',
        ''NA-CA (National Bank of Canada)'', ''LB-CA (Laurentian Bank)'',
        ''Financial sector'', ''North America Financial'']"
    by (rule strategies_labels)
qed

lemma eighth_strategy:
  "strategies start until ! 7 =
     (\<lparr>tickers = [], sectors = [''Financial''], regions = [],
       start_date = start, end_date = until\<rparr>, ''Financial sector'')"
  by (simp add: strategies_def canadian_banks_def)

lemma rejecting_run_starts:
  "\<exists>df self' w'. collect_news rejecting (\<lambda>df. df) 63929692800 30 (init, quiet_world) =
      Inr (df, self', w')"
  by (simp add: collect_news_run window_start_cases Let_def
      del: process_results.simps run_strategies.simps)

lemma no_run_eval:
  "collect_news rejecting (\<lambda>df. df) 63929692800 800000 (init, quiet_world) = Inl OverflowError"
  by (simp add: collect_news_run window_start_cases)

theorem rejected_filter_skipped_witness:
  "api rejecting (length (calls quiet_world) + 7)
      (fst (strategies (63929692800 - 30 * 86400) 63929692800 ! 7)) =
     ApiError ''(400) Reason: Bad Request''
   \<and> (\<exists>df self' w'.
        collect_news rejecting (\<lambda>df. df) 63929692800 30 (init, quiet_world) = Inr (df, self', w')
        \<and> (WARNING, BadRequest ''Financial sector'') \<in> set (log w')
        \<and> length (calls w') = 9)
   \<and> collect_news rejecting (\<lambda>df. df) 63929692800 800000 (init, quiet_world) = Inl OverflowError"
proof -
  let ?ss = "strategies (63929692800 - 30 * 86400) 63929692800"
  have rejected:
    "api rejecting (length (calls quiet_world) + 7) (fst (?ss ! 7)) =
       ApiError ''(400) Reason: Bad Request''"
    by (simp add: eighth_strategy rejecting_def)
  have logged: "failure_record (snd (?ss ! 7)) ''(400) Reason: Bad Request'' =
      (WARNING, BadRequest ''Financial sector'')"
    by (simp add: eighth_strategy failure_record_def sublist_code)
  have nine: "length (map fst ?ss) = 9"
    by (simp add: strategies_def canadian_banks_def)
  obtain df self' w' where
    run: "collect_news rejecting (\<lambda>df. df) 63929692800 30 (init, quiet_world) = Inr (df, self', w')"
    using rejecting_run_starts by blast
  from rejected_filter_skipped [where e = rejecting and sort_values = "\<lambda>df. df"
      and until = 63929692800 and days_back = 30 and self = init and w = quiet_world]
  have c: "calls w' = calls quiet_world @ map fst ?ss"
    and l: "\<forall>k < 9. \<forall>msg'.
          api rejecting (length (calls quiet_world) + k) (fst (?ss ! k)) = ApiError msg' \<longrightarrow>
          failure_record (snd (?ss ! k)) msg' \<in> set (log w')"
    by (simp_all add: run)
  from l have "\<forall>msg'.
          api rejecting (length (calls quiet_world) + 7) (fst (?ss ! 7)) = ApiError msg' \<longrightarrow>
          failure_record (snd (?ss ! 7)) msg' \<in> set (log w')"
    by (elim allE [where x = "7 :: nat"]) simp
  with rejected have "failure_record (snd (?ss ! 7)) ''(400) Reason: Bad Request'' \<in> set (log w')"
    by blast
  with logged nine c have "(WARNING, BadRequest ''Financial sector'') \<in> set (log w')
      \<and> length (calls w') = 9"
    by (simp add: quiet_world_def)
  with run rejected no_run_eval show ?thesis by blast
qed

end
